theory Spec2Isabelle
  imports Complex_Main "HOL-Library.Sublist" "HOL-Library.AList"
begin

section \<open>Values shared by the whole program\<close>

text \<open>
  The program is a single Python file, \<^verbatim>\<open>src/app.py\<close>, written against PyQt6.
  Python's unbounded \<^verbatim>\<open>int\<close> is \<^typ>\<open>int\<close>, \<^verbatim>\<open>str\<close> is \<^typ>\<open>string\<close> (ASCII text),
  \<^verbatim>\<open>None\<close> is \<^term>\<open>None\<close>. An exception that a function of the source lets escape
  is a value of \<open>py_error\<close>.

  Numbers are modelled at two precisions. The YOLO codec, whose output depends on the
  rounding of floats and on the values \<^verbatim>\<open>inf\<close> and \<^verbatim>\<open>nan\<close>, computes with IEEE 754
  binary64 values (\<open>pyfloat\<close> below), operation by operation. The scene (drawing, resizing,
  deleting, history) keeps its rectangles with rational coordinates (\<^typ>\<open>rat\<close>) and computes
  on them exactly.
\<close>

datatype py_error = ZeroDivisionError | ValueError | IndexError | OverflowError

subsection \<open>QRectF and QColor\<close>

text \<open>
  Qt's \<^verbatim>\<open>QRectF\<close> stores the top-left corner and the size (\<^verbatim>\<open>xp, yp, w, h\<close>);
  the edges are derived. \<^verbatim>\<open>setTop\<close> and \<^verbatim>\<open>setLeft\<close> move one edge and keep the
  opposite one, \<^verbatim>\<open>setBottom\<close> and \<^verbatim>\<open>setRight\<close> change the size only, and
  \<^verbatim>\<open>normalized\<close> flips a negative width or height. PyQt gives a \<^verbatim>\<open>QRectF\<close> the truth
  value \<^verbatim>\<open>isValid()\<close>.
\<close>

record QRectF =
  xp :: rat
  yp :: rat
  wd :: rat
  ht :: rat





definition rect_width :: "QRectF \<Rightarrow> rat" where
  "rect_width r = wd r"

definition rect_height :: "QRectF \<Rightarrow> rat" where
  "rect_height r = ht r"





definition normalized :: "QRectF \<Rightarrow> QRectF" where
  "normalized r =
     (let r1 = (if wd r < 0 then r\<lparr>xp := xp r + wd r, wd := - wd r\<rparr> else r)
      in if ht r1 < 0 then r1\<lparr>yp := yp r1 + ht r1, ht := - ht r1\<rparr> else r1)"


text \<open>\<^verbatim>\<open>QRectF(topLeft, bottomRight)\<close>, the constructor from two points.\<close>

definition QRectF_points :: "rat \<times> rat \<Rightarrow> rat \<times> rat \<Rightarrow> QRectF" where
  "QRectF_points p q = \<lparr>xp = fst p, yp = snd p, wd = fst q - fst p, ht = snd q - snd p\<rparr>"

datatype QColor = QColor int int int int

subsection \<open>Strings: whitespace, decimal digits, formatting and parsing\<close>

text \<open>
  \<^verbatim>\<open>str.strip()\<close> and \<^verbatim>\<open>str.split()\<close> without arguments work on Python's whitespace,
  which in ASCII is the characters 9 to 13, 28 to 31 and 32.
\<close>

definition is_space :: "char \<Rightarrow> bool" where
  "is_space c =
     (let n = (of_char c :: nat) in n = 32 \<or> (9 \<le> n \<and> n \<le> 13) \<or> (28 \<le> n \<and> n \<le> 31))"

definition py_strip :: "string \<Rightarrow> string" where
  "py_strip s = rev (dropWhile is_space (rev (dropWhile is_space s)))"

fun split_aux :: "string \<Rightarrow> string \<Rightarrow> string list" where
  "split_aux cur [] = (if cur = [] then [] else [cur])"
| "split_aux cur (c # cs) =
     (if is_space c then (if cur = [] then split_aux [] cs else cur # split_aux [] cs)
      else split_aux (cur @ [c]) cs)"

definition py_split :: "string \<Rightarrow> string list" where
  "py_split s = split_aux [] s"

definition digit_char :: "int \<Rightarrow> char" where
  "digit_char d = ''0123456789'' ! nat d"

definition is_digit :: "char \<Rightarrow> bool" where
  "is_digit c = (let n = (of_char c :: nat) in 48 \<le> n \<and> n \<le> 57)"

definition digit_val :: "char \<Rightarrow> int" where
  "digit_val c = of_char c - 48"

text \<open>The decimal digits of a non-negative integer, without leading zeros.\<close>

function digits10 :: "int \<Rightarrow> string" where
  "digits10 n =
     (if n < 10 then [digit_char n] else digits10 (n div 10) @ [digit_char (n mod 10)])"
  by pat_completeness auto
termination
  by (relation "measure nat") auto

declare digits10.simps [simp del]

text \<open>The last six decimal digits of a non-negative integer, with leading zeros.\<close>

definition digits6 :: "int \<Rightarrow> string" where
  "digits6 n =
     map digit_char
       [n div 100000 mod 10, n div 10000 mod 10, n div 1000 mod 10, n div 100 mod 10,
        n div 10 mod 10, n mod 10]"

text \<open>\<^verbatim>\<open>str(i)\<close> of an integer, as an f-string prints \<^verbatim>\<open>{self.class_id}\<close>.\<close>

definition py_str_int :: "int \<Rightarrow> string" where
  "py_str_int i = (if i < 0 then CHR ''-'' # digits10 (- i) else digits10 i)"

definition round_half_even :: "rat \<Rightarrow> int" where
  "round_half_even q =
     (let f = \<lfloor>q\<rfloor>; r = q - of_int f
      in if r < 1 / 2 then f else if 1 / 2 < r then f + 1 else if even f then f else f + 1)"

text \<open>
  The decimal numeral with six decimals that is nearest to a number (ties to the even last
  digit): a sign when the number is negative, the integer part, a point and exactly six
  digits.
\<close>

definition fixed6 :: "rat \<Rightarrow> string" where
  "fixed6 x =
     (let n = round_half_even (\<bar>x\<bar> * 1000000)
      in (if x < 0 then ''-'' else []) @ digits10 (n div 1000000) @ ''.'' @
         digits6 (n mod 1000000))"

text \<open>
  Python's \<^verbatim>\<open>digitpart ::= digit (["_"] digit)*\<close>, read as a number; \<^term>\<open>None\<close>
  when the string is not a digitpart.
\<close>

fun digitpart_aux :: "int \<Rightarrow> string \<Rightarrow> int option" where
  "digitpart_aux acc [] = Some acc"
| "digitpart_aux acc [c] = (if is_digit c then Some (10 * acc + digit_val c) else None)"
| "digitpart_aux acc (c # d # cs) =
     (if is_digit c then digitpart_aux (10 * acc + digit_val c) (d # cs)
      else if c = CHR ''_'' \<and> is_digit d then digitpart_aux (10 * acc + digit_val d) cs
      else None)"

definition digitpart :: "string \<Rightarrow> int option" where
  "digitpart s =
     (case s of [] \<Rightarrow> None
      | c # cs \<Rightarrow> if is_digit c then digitpart_aux (digit_val c) cs else None)"

text \<open>
  \<^verbatim>\<open>int(s)\<close> on a token without whitespace: an optional sign and a digitpart.
  \<^term>\<open>None\<close> stands for the \<^verbatim>\<open>ValueError\<close> that \<^verbatim>\<open>int\<close> raises.
\<close>

definition py_int :: "string \<Rightarrow> int option" where
  "py_int s =
     (case s of
        [] \<Rightarrow> None
      | c # cs \<Rightarrow>
          if c = CHR ''-'' then map_option uminus (digitpart cs)
          else if c = CHR ''+'' then digitpart cs
          else digitpart s)"

text \<open>
  The decimal numerals that \<^verbatim>\<open>float(s)\<close> accepts, without their sign:
  \<^verbatim>\<open>([digitpart] "." digitpart | digitpart ["."]) [("e"|"E") [sign] digitpart]\<close>, read as
  the exact number they denote; \<^term>\<open>None\<close> when the string is not such a numeral.
\<close>

definition is_exp_char :: "char \<Rightarrow> bool" where
  "is_exp_char c = (c = CHR ''e'' \<or> c = CHR ''E'')"

definition py_float_number :: "string \<Rightarrow> rat option" where
  "py_float_number s =
     (let ip = takeWhile (\<lambda>c. c \<noteq> CHR ''.'') s;
          rest = dropWhile (\<lambda>c. c \<noteq> CHR ''.'') s
      in case rest of
           [] \<Rightarrow> map_option of_int (digitpart ip)
         | _ # fp \<Rightarrow>
             if fp = [] then map_option of_int (digitpart ip)
             else (case digitpart fp of
                     None \<Rightarrow> None
                   | Some f \<Rightarrow>
                       (let frac = of_int f / 10 ^ length (filter is_digit fp)
                        in if ip = [] then Some frac
                           else map_option (\<lambda>i. of_int i + frac) (digitpart ip))))"

definition py_float_exponent :: "string \<Rightarrow> int option" where
  "py_float_exponent s =
     (case s of
        [] \<Rightarrow> None
      | c # cs \<Rightarrow>
          if c = CHR ''-'' then map_option uminus (digitpart cs)
          else if c = CHR ''+'' then digitpart cs
          else digitpart s)"

definition scale10 :: "rat \<Rightarrow> int \<Rightarrow> rat" where
  "scale10 m e = (if 0 \<le> e then m * 10 ^ nat e else m / 10 ^ nat (- e))"

definition py_float_abs :: "string \<Rightarrow> rat option" where
  "py_float_abs s =
     (let mant = takeWhile (\<lambda>c. \<not> is_exp_char c) s;
          rest = dropWhile (\<lambda>c. \<not> is_exp_char c) s
      in case rest of
           [] \<Rightarrow> py_float_number mant
         | _ # ex \<Rightarrow>
             (case py_float_number mant of
                None \<Rightarrow> None
              | Some m \<Rightarrow> map_option (scale10 m) (py_float_exponent ex)))"

subsection \<open>Python floats\<close>

text \<open>
  A Python \<^verbatim>\<open>float\<close> and a Qt \<^verbatim>\<open>qreal\<close> are IEEE 754 binary64 values: a finite value,
  known by the rational number it denotes (\<open>Finite 0\<close> is the positive zero), the negative
  zero, the two infinities, or a nan (the sign and the payload of a nan cannot be observed
  from Python code that only computes and compares). The result of every operation is the
  exact result rounded to the nearest binary64 value, ties to the even mantissa.
\<close>

datatype pyfloat = Finite rat | NegZero | PosInf | NegInf | NaN

fun is_finite :: "pyfloat \<Rightarrow> bool" where
  "is_finite (Finite q) = True"
| "is_finite NegZero = True"
| "is_finite PosInf = False"
| "is_finite NegInf = False"
| "is_finite NaN = False"

text \<open>The number a finite value denotes (and 0 for the others, where it is not used).\<close>

fun val :: "pyfloat \<Rightarrow> rat" where
  "val (Finite q) = q"
| "val NegZero = 0"
| "val PosInf = 0"
| "val NegInf = 0"
| "val NaN = 0"

fun sign_bit :: "pyfloat \<Rightarrow> bool" where
  "sign_bit (Finite q) = (q < 0)"
| "sign_bit NegZero = True"
| "sign_bit PosInf = False"
| "sign_bit NegInf = True"
| "sign_bit NaN = False"

definition signed_zero :: "bool \<Rightarrow> pyfloat" where
  "signed_zero negative = (if negative then NegZero else Finite 0)"

definition signed_inf :: "bool \<Rightarrow> pyfloat" where
  "signed_inf negative = (if negative then NegInf else PosInf)"

text \<open>The number of binary digits of a positive integer, Python's \<^verbatim>\<open>int.bit_length\<close>.\<close>

function bit_length :: "int \<Rightarrow> int" where
  "bit_length n = (if n \<le> 0 then 0 else 1 + bit_length (n div 2))"
  by pat_completeness auto
termination
  by (relation "measure nat") auto

declare bit_length.simps [simp del]

text \<open>
  \<open>power_sq b n\<close> is \<open>b\<^sup>n\<close>, computed by squaring; \<open>scale2 e\<close> is \<open>2\<^sup>e\<close>; \<open>floor_log2 x\<close>
  is the \<open>e\<close> with \<open>2\<^sup>e \<le> x < 2\<^sup>e\<^sup>+\<^sup>1\<close>, for \<open>x > 0\<close>.
\<close>

function power_sq :: "int \<Rightarrow> int \<Rightarrow> int" where
  "power_sq b n =
     (if n \<le> 0 then 1
      else if n mod 2 = 0 then power_sq (b * b) (n div 2)
      else b * power_sq (b * b) (n div 2))"
  by pat_completeness auto
termination
  by (relation "measure (\<lambda>(b, n). nat n)") auto

declare power_sq.simps [simp del]

definition scale2 :: "int \<Rightarrow> rat" where
  "scale2 e = (if 0 \<le> e then of_int (power_sq 2 e) else 1 / of_int (power_sq 2 (- e)))"

definition floor_log2 :: "rat \<Rightarrow> int" where
  "floor_log2 x = (if 1 \<le> x then bit_length \<lfloor>x\<rfloor> - 1 else - bit_length (\<lceil>1 / x\<rceil> - 1))"

text \<open>
  Rounding of an exact result to binary64. The mantissa has 53 bits, so in the binade
  \<open>[2\<^sup>e, 2\<^sup>e\<^sup>+\<^sup>1)\<close> the values are the multiples of \<open>2\<^sup>e\<^sup>-\<^sup>5\<^sup>2\<close>; below \<open>2\<^sup>-\<^sup>1\<^sup>0\<^sup>2\<^sup>2\<close> (the
  subnormal numbers) they are the multiples of \<open>2\<^sup>-\<^sup>1\<^sup>0\<^sup>7\<^sup>4\<close>. A result that rounds to
  \<open>2\<^sup>1\<^sup>0\<^sup>2\<^sup>4\<close> or beyond is an infinity, and one that rounds to zero keeps its sign.
\<close>

definition round_double :: "rat \<Rightarrow> pyfloat" where
  "round_double x =
     (if x = 0 then Finite 0
      else
        (let e = max (floor_log2 \<bar>x\<bar>) (- 1022);
             ulp = scale2 (e - 52);
             m = round_half_even (x / ulp);
             y = of_int m * ulp
         in if scale2 1024 \<le> \<bar>y\<bar> then signed_inf (x < 0)
            else if m = 0 then signed_zero (x < 0)
            else Finite y))"

text \<open>Negation, addition, subtraction, multiplication and division of IEEE 754.\<close>

fun float_neg :: "pyfloat \<Rightarrow> pyfloat" where
  "float_neg (Finite q) = (if q = 0 then NegZero else Finite (- q))"
| "float_neg NegZero = Finite 0"
| "float_neg PosInf = NegInf"
| "float_neg NegInf = PosInf"
| "float_neg NaN = NaN"

definition float_add :: "pyfloat \<Rightarrow> pyfloat \<Rightarrow> pyfloat" where
  "float_add a b =
     (if a = NaN \<or> b = NaN then NaN
      else if \<not> is_finite a then (if \<not> is_finite b \<and> b \<noteq> a then NaN else a)
      else if \<not> is_finite b then b
      else if a = NegZero \<and> b = NegZero then NegZero
      else round_double (val a + val b))"

definition float_sub :: "pyfloat \<Rightarrow> pyfloat \<Rightarrow> pyfloat" where
  "float_sub a b = float_add a (float_neg b)"

definition float_mul :: "pyfloat \<Rightarrow> pyfloat \<Rightarrow> pyfloat" where
  "float_mul a b =
     (if a = NaN \<or> b = NaN then NaN
      else if \<not> is_finite a \<or> \<not> is_finite b then
        (if (is_finite a \<and> val a = 0) \<or> (is_finite b \<and> val b = 0) then NaN
         else signed_inf (sign_bit a \<noteq> sign_bit b))
      else if val a = 0 \<or> val b = 0 then signed_zero (sign_bit a \<noteq> sign_bit b)
      else round_double (val a * val b))"

definition float_div :: "pyfloat \<Rightarrow> pyfloat \<Rightarrow> pyfloat" where
  "float_div a b =
     (if a = NaN \<or> b = NaN then NaN
      else if \<not> is_finite a then
        (if \<not> is_finite b then NaN else signed_inf (sign_bit a \<noteq> sign_bit b))
      else if \<not> is_finite b then signed_zero (sign_bit a \<noteq> sign_bit b)
      else if val b = 0 then
        (if val a = 0 then NaN else signed_inf (sign_bit a \<noteq> sign_bit b))
      else if val a = 0 then signed_zero (sign_bit a \<noteq> sign_bit b)
      else round_double (val a / val b))"

text \<open>
  Python's \<^verbatim>\<open>a / b\<close> on floats raises \<^verbatim>\<open>ZeroDivisionError\<close> when \<open>b\<close> is a zero,
  before it divides.
\<close>

definition float_truediv :: "pyfloat \<Rightarrow> pyfloat \<Rightarrow> py_error + pyfloat" where
  "float_truediv a b =
     (if is_finite b \<and> val b = 0 then Inl ZeroDivisionError else Inr (float_div a b))"

text \<open>
  An \<^verbatim>\<open>int\<close> operand of a float operation is converted first, rounded like any other
  value; the conversion raises \<^verbatim>\<open>OverflowError\<close> when the integer is too large for a
  finite float.
\<close>

definition float_of_int :: "int \<Rightarrow> py_error + pyfloat" where
  "float_of_int i =
     (let d = round_double (of_int i) in if is_finite d then Inr d else Inl OverflowError)"

definition float_mul_int :: "pyfloat \<Rightarrow> int \<Rightarrow> py_error + pyfloat" where
  "float_mul_int a i =
     (case float_of_int i of Inl e \<Rightarrow> Inl e | Inr b \<Rightarrow> Inr (float_mul a b))"

definition float_truediv_int :: "pyfloat \<Rightarrow> int \<Rightarrow> py_error + pyfloat" where
  "float_truediv_int a i =
     (case float_of_int i of Inl e \<Rightarrow> Inl e | Inr b \<Rightarrow> float_truediv a b)"

text \<open>
  Comparison: false whenever a nan is involved, the two zeros are equal. \<^verbatim>\<open>min(a, b)\<close>
  returns \<open>b\<close> only when \<open>b < a\<close>, and \<^verbatim>\<open>max(a, b)\<close> returns \<open>b\<close> only when \<open>b > a\<close>.
\<close>

fun float_rank :: "pyfloat \<Rightarrow> int" where
  "float_rank NegInf = - 1"
| "float_rank PosInf = 1"
| "float_rank (Finite q) = 0"
| "float_rank NegZero = 0"
| "float_rank NaN = 0"

definition float_lt :: "pyfloat \<Rightarrow> pyfloat \<Rightarrow> bool" where
  "float_lt a b =
     (a \<noteq> NaN \<and> b \<noteq> NaN \<and>
      (float_rank a < float_rank b \<or> (float_rank a = float_rank b \<and> val a < val b)))"

definition py_min :: "pyfloat \<Rightarrow> pyfloat \<Rightarrow> pyfloat" where
  "py_min a b = (if float_lt b a then b else a)"

definition py_max :: "pyfloat \<Rightarrow> pyfloat \<Rightarrow> pyfloat" where
  "py_max a b = (if float_lt a b then b else a)"

subsection \<open>Floats as text\<close>

text \<open>
  The format \<^verbatim>\<open>{x:.6f}\<close> prints the decimal numeral with six decimals that is nearest to
  the value of the float.
\<close>

definition format_6f :: "pyfloat \<Rightarrow> string" where
  "format_6f x =
     (case x of
        Finite q \<Rightarrow> fixed6 q
      | NegZero \<Rightarrow> ''-0.000000''
      | PosInf \<Rightarrow> ''inf''
      | NegInf \<Rightarrow> ''-inf''
      | NaN \<Rightarrow> ''nan'')"

text \<open>
  \<^verbatim>\<open>float(s)\<close> on a token without whitespace: an optional sign, then either a decimal
  numeral, whose value is rounded to the nearest float, or one of the spellings \<^verbatim>\<open>inf\<close>,
  \<^verbatim>\<open>infinity\<close> and \<^verbatim>\<open>nan\<close> in any mix of upper and lower case. \<^term>\<open>None\<close> stands for
  \<^verbatim>\<open>ValueError\<close>.
\<close>

definition py_lower :: "char \<Rightarrow> char" where
  "py_lower c =
     (let n = (of_char c :: nat)
      in if 65 \<le> n \<and> n \<le> 90 then ''abcdefghijklmnopqrstuvwxyz'' ! (n - 65) else c)"

definition py_float_special :: "string \<Rightarrow> pyfloat option" where
  "py_float_special s =
     (let l = map py_lower s
      in if l = ''inf'' \<or> l = ''infinity'' then Some PosInf
         else if l = ''nan'' then Some NaN
         else None)"

definition py_float_unsigned :: "string \<Rightarrow> pyfloat option" where
  "py_float_unsigned s =
     (case py_float_special s of
        Some v \<Rightarrow> Some v
      | None \<Rightarrow> map_option round_double (py_float_abs s))"

definition py_float :: "string \<Rightarrow> pyfloat option" where
  "py_float s =
     (case s of
        [] \<Rightarrow> None
      | c # cs \<Rightarrow>
          if c = CHR ''-'' then map_option float_neg (py_float_unsigned cs)
          else if c = CHR ''+'' then py_float_unsigned cs
          else py_float_unsigned s)"

section \<open>The bounding box and the YOLO codec\<close>

text \<open>
  \<^verbatim>\<open>class BoundingBox\<close>: the rectangle in pixels, the class and an optional colour. The
  field \<^verbatim>\<open>graphics_item\<close>, the handle of the item drawn on screen, belongs to the
  rendering layer and is not part of the model.
\<close>

record BoundingBox =
  rect :: QRectF
  class_id :: int
  class_name :: string
  color :: "QColor option"

text \<open>\<^verbatim>\<open>BoundingBox.__init__(rect, class_id, class_name, color=None)\<close>.\<close>

definition new_BoundingBox :: "QRectF \<Rightarrow> int \<Rightarrow> string \<Rightarrow> QColor option \<Rightarrow> BoundingBox" where
  "new_BoundingBox r cid cname col = \<lparr>rect = r, class_id = cid, class_name = cname, color = col\<rparr>"

text \<open>
  The codec computes with floats, and its results depend on their rounding and on the values
  that are not finite. For the codec the rectangle and the box are therefore taken with the
  float coordinates they have in the program: \<open>QRectF64\<close> is \<^verbatim>\<open>QRectF\<close> and
  \<open>BoundingBox64\<close> is \<^verbatim>\<open>BoundingBox\<close>, field for field. \<^verbatim>\<open>QRectF.right()\<close> and
  \<^verbatim>\<open>QRectF.bottom()\<close> are the float sums \<open>xp + w\<close> and \<open>yp + h\<close>.
\<close>

record QRectF64 =
  xp64 :: pyfloat
  yp64 :: pyfloat
  wd64 :: pyfloat
  ht64 :: pyfloat

definition rect64_left :: "QRectF64 \<Rightarrow> pyfloat" where
  "rect64_left r = xp64 r"

definition rect64_top :: "QRectF64 \<Rightarrow> pyfloat" where
  "rect64_top r = yp64 r"

definition rect64_right :: "QRectF64 \<Rightarrow> pyfloat" where
  "rect64_right r = float_add (xp64 r) (wd64 r)"

definition rect64_bottom :: "QRectF64 \<Rightarrow> pyfloat" where
  "rect64_bottom r = float_add (yp64 r) (ht64 r)"

definition rect64_width :: "QRectF64 \<Rightarrow> pyfloat" where
  "rect64_width r = wd64 r"

definition rect64_height :: "QRectF64 \<Rightarrow> pyfloat" where
  "rect64_height r = ht64 r"

record BoundingBox64 =
  rect64 :: QRectF64
  class_id64 :: int
  class_name64 :: string
  color64 :: "QColor option"

definition new_BoundingBox64 ::
  "QRectF64 \<Rightarrow> int \<Rightarrow> string \<Rightarrow> QColor option \<Rightarrow> BoundingBox64" where
  "new_BoundingBox64 r cid cname col =
     \<lparr>rect64 = r, class_id64 = cid, class_name64 = cname, color64 = col\<rparr>"

text \<open>
  A box with finite coordinates is a box of the scene, whose rectangles have rational
  coordinates; a box with an infinite or nan coordinate has no counterpart there.
\<close>

definition scene_box :: "BoundingBox64 \<Rightarrow> BoundingBox option" where
  "scene_box b =
     (let r = rect64 b
      in if is_finite (xp64 r) \<and> is_finite (yp64 r) \<and> is_finite (wd64 r) \<and> is_finite (ht64 r)
         then Some (new_BoundingBox
                      \<lparr>xp = val (xp64 r), yp = val (yp64 r), wd = val (wd64 r), ht = val (ht64 r)\<rparr>
                      (class_id64 b) (class_name64 b) (color64 b))
         else None)"

text \<open>
  \<^verbatim>\<open>BoundingBox.to_yolo_format\<close> (lines 146 to 172). Each division by an image dimension
  converts the dimension to a float, which raises \<^verbatim>\<open>OverflowError\<close> when it is too large,
  and raises \<^verbatim>\<open>ZeroDivisionError\<close> when it is zero. Both pass to the caller. The literals
  \<^verbatim>\<open>2.0\<close>, \<^verbatim>\<open>0.0\<close> and \<^verbatim>\<open>1.0\<close> are the floats \<open>Finite 2\<close>, \<open>Finite 0\<close> and \<open>Finite 1\<close>.
\<close>

definition to_yolo_format :: "BoundingBox64 \<Rightarrow> int \<Rightarrow> int \<Rightarrow> py_error + string" where
  "to_yolo_format self image_width image_height =
     (case float_truediv_int
             (float_div (float_add (rect64_left (rect64 self)) (rect64_right (rect64 self)))
                (Finite 2))
             image_width of
        Inl e \<Rightarrow> Inl e
      | Inr x_center \<Rightarrow>
     (case float_truediv_int
             (float_div (float_add (rect64_top (rect64 self)) (rect64_bottom (rect64 self)))
                (Finite 2))
             image_height of
        Inl e \<Rightarrow> Inl e
      | Inr y_center \<Rightarrow>
     (case float_truediv_int (rect64_width (rect64 self)) image_width of
        Inl e \<Rightarrow> Inl e
      | Inr width \<Rightarrow>
     (case float_truediv_int (rect64_height (rect64 self)) image_height of
        Inl e \<Rightarrow> Inl e
      | Inr height \<Rightarrow>
          (let x_center = py_max (Finite 0) (py_min (Finite 1) x_center);
               y_center = py_max (Finite 0) (py_min (Finite 1) y_center);
               width = py_max (Finite 0) (py_min (Finite 1) width);
               height = py_max (Finite 0) (py_min (Finite 1) height)
           in Inr (py_str_int (class_id64 self) @ '' '' @ format_6f x_center @ '' '' @
                   format_6f y_center @ '' '' @ format_6f width @ '' '' @
                   format_6f height))))))"

text \<open>
  \<^verbatim>\<open>BoundingBox.from_yolo_format\<close> (lines 174 to 207), statement by statement. Every
  \<^verbatim>\<open>ValueError\<close> of \<^verbatim>\<open>int\<close> and \<^verbatim>\<open>float\<close> is caught inside the function and turned into
  \<^verbatim>\<open>None\<close>; the \<^verbatim>\<open>OverflowError\<close> of a product with an image dimension too large for a
  float is not caught. The \<^verbatim>\<open>2\<close> of \<^verbatim>\<open>width / 2\<close> is an \<^verbatim>\<open>int\<close>.
\<close>

definition from_yolo_format ::
  "string \<Rightarrow> int \<Rightarrow> int \<Rightarrow> string \<Rightarrow> py_error + BoundingBox64 option" where
  "from_yolo_format line image_width image_height cname =
     (let parts = py_split (py_strip line)
      in if length parts \<noteq> 5 then Inr None
         else
           (case py_int (parts ! 0) of
              None \<Rightarrow> Inr None
            | Some cid \<Rightarrow>
           (case py_float (parts ! 1) of
              None \<Rightarrow> Inr None
            | Some f1 \<Rightarrow>
           (case float_mul_int f1 image_width of
              Inl e \<Rightarrow> Inl e
            | Inr x_center \<Rightarrow>
           (case py_float (parts ! 2) of
              None \<Rightarrow> Inr None
            | Some f2 \<Rightarrow>
           (case float_mul_int f2 image_height of
              Inl e \<Rightarrow> Inl e
            | Inr y_center \<Rightarrow>
           (case py_float (parts ! 3) of
              None \<Rightarrow> Inr None
            | Some f3 \<Rightarrow>
           (case float_mul_int f3 image_width of
              Inl e \<Rightarrow> Inl e
            | Inr width \<Rightarrow>
           (case py_float (parts ! 4) of
              None \<Rightarrow> Inr None
            | Some f4 \<Rightarrow>
           (case float_mul_int f4 image_height of
              Inl e \<Rightarrow> Inl e
            | Inr height \<Rightarrow>
           (case float_truediv_int width 2 of
              Inl e \<Rightarrow> Inl e
            | Inr half_width \<Rightarrow>
           (case float_truediv_int height 2 of
              Inl e \<Rightarrow> Inl e
            | Inr half_height \<Rightarrow>
                (let x = float_sub x_center half_width;
                     y = float_sub y_center half_height
                 in Inr (Some (new_BoundingBox64
                                 \<lparr>xp64 = x, yp64 = y, wd64 = width, ht64 = height\<rparr>
                                 cid cname None)))))))))))))))"

section \<open>The codec in the words of the specification\<close>

text \<open>
  The quantities the specification names, to state what the code computes: the clamp to
  \<open>[0, 1]\<close>, and the four normalized fields of a pixel rectangle, \<open>cx = (x_left + x_right)
  / 2 / image_width\<close>, \<open>cy = (y_top + y_bottom) / 2 / image_height\<close>, \<open>w = box.w /
  image_width\<close>, \<open>h = box.h / image_height\<close>, where the left edge is \<open>x\<close> and the right edge
  \<open>x + w\<close>. \<open>rel_close tol a b\<close> says that \<open>a\<close> is within the relative error \<open>tol\<close> of
  \<open>b\<close>.
\<close>

definition clamp01 :: "rat \<Rightarrow> rat" where
  "clamp01 v = (if v < 0 then 0 else if 1 < v then 1 else v)"

definition norm_cx :: "QRectF \<Rightarrow> int \<Rightarrow> rat" where
  "norm_cx r iw = (xp r + (xp r + wd r)) / 2 / of_int iw"

definition norm_cy :: "QRectF \<Rightarrow> int \<Rightarrow> rat" where
  "norm_cy r ih = (yp r + (yp r + ht r)) / 2 / of_int ih"

definition norm_w :: "QRectF \<Rightarrow> int \<Rightarrow> rat" where
  "norm_w r iw = wd r / of_int iw"

definition norm_h :: "QRectF \<Rightarrow> int \<Rightarrow> rat" where
  "norm_h r ih = ht r / of_int ih"

definition rel_close :: "rat \<Rightarrow> rat \<Rightarrow> rat \<Rightarrow> bool" where
  "rel_close tol a b = (\<bar>a - b\<bar> \<le> tol * \<bar>b\<bar>)"

text \<open>
  A token is a non-empty string without whitespace; the value of a string of digits is read
  from the left.
\<close>

definition is_token :: "string \<Rightarrow> bool" where
  "is_token t = (t \<noteq> [] \<and> (\<forall>c \<in> set t. \<not> is_space c))"

definition digits_value :: "int \<Rightarrow> string \<Rightarrow> int" where
  "digits_value acc s = foldl (\<lambda>a c. 10 * a + digit_val c) acc s"

section \<open>The annotation scene\<close>

text \<open>
  \<^verbatim>\<open>class AnnotationScene\<close> (lines 214 to 836): the boxes of the open image, the
  provisional box of a draw in progress, the current class and the two history stacks. The
  Python lists \<^verbatim>\<open>undo_stack\<close> and \<^verbatim>\<open>redo_stack\<close> grow and shrink at their end
  (\<^verbatim>\<open>append\<close>, \<^verbatim>\<open>pop()\<close>). \<^verbatim>\<open>current_box\<close> holds the rectangle of the provisional
  graphics item. The dictionary \<^verbatim>\<open>class_custom_colors\<close> is an association list.
\<close>

record AnnotationScene =
  boxes :: "BoundingBox list"
  current_box :: "QRectF option"
  start_point :: "(rat \<times> rat) option"
  image_width :: int
  image_height :: int
  selected_box :: "BoundingBox option"
  current_class_id :: int
  current_class_name :: string
  current_class_color :: "QColor option"
  drawing_enabled :: bool
  undo_stack :: "BoundingBox list list"
  redo_stack :: "BoundingBox list list"
  class_custom_colors :: "(int \<times> QColor) list"

text \<open>\<^verbatim>\<open>AnnotationScene.__init__\<close>: the scene before any image is loaded.\<close>

definition init_scene :: AnnotationScene where
  "init_scene =
     \<lparr>boxes = [], current_box = None, start_point = None, image_width = 0, image_height = 0,
      selected_box = None, current_class_id = 0, current_class_name = [],
      current_class_color = None, drawing_enabled = True, undo_stack = [], redo_stack = [],
      class_custom_colors = []\<rparr>"

definition class_colors :: "QColor list" where
  "class_colors =
     [QColor 0 255 0 150, QColor 255 0 0 150, QColor 0 0 255 150, QColor 255 255 0 150,
      QColor 255 0 255 150, QColor 0 255 255 150, QColor 255 128 0 150, QColor 128 0 255 150]"

definition get_box_color :: "AnnotationScene \<Rightarrow> int \<Rightarrow> QColor" where
  "get_box_color self cid =
     (case map_of (class_custom_colors self) cid of
        Some c \<Rightarrow> c
      | None \<Rightarrow> class_colors ! nat (cid mod int (length class_colors)))"

definition set_class_color :: "AnnotationScene \<Rightarrow> int \<Rightarrow> QColor \<Rightarrow> AnnotationScene" where
  "set_class_color self cid c =
     self\<lparr>class_custom_colors := AList.update cid c (class_custom_colors self)\<rparr>"

definition set_current_class ::
  "AnnotationScene \<Rightarrow> int \<Rightarrow> string \<Rightarrow> QColor option \<Rightarrow> AnnotationScene" where
  "set_current_class self cid cname col =
     (let s1 = self\<lparr>current_class_id := cid, current_class_name := cname,
                     current_class_color := col\<rparr>
      in case col of
           None \<Rightarrow> s1
         | Some c \<Rightarrow> s1\<lparr>class_custom_colors := AList.update cid c (class_custom_colors s1)\<rparr>)"

subsection \<open>History\<close>

text \<open>
  The loop that \<^verbatim>\<open>save_state\<close>, \<^verbatim>\<open>undo\<close> and \<^verbatim>\<open>redo\<close> each write out: a new
  \<^verbatim>\<open>BoundingBox(QRectF(bbox.rect), bbox.class_id, bbox.class_name)\<close> for every box, the
  colour left at its default.
\<close>

definition copy_boxes :: "BoundingBox list \<Rightarrow> BoundingBox list" where
  "copy_boxes bs = map (\<lambda>bbox. new_BoundingBox (rect bbox) (class_id bbox) (class_name bbox) None) bs"

definition save_state :: "AnnotationScene \<Rightarrow> AnnotationScene" where
  "save_state self =
     self\<lparr>undo_stack := undo_stack self @ [copy_boxes (boxes self)], redo_stack := []\<rparr>"

text \<open>
  \<^verbatim>\<open>restore_state\<close> (lines 801 to 836) empties the box list and appends, for every box of
  the given state, a new \<^verbatim>\<open>BoundingBox\<close> built from its rectangle, class id and class name.
\<close>

definition restore_state :: "AnnotationScene \<Rightarrow> BoundingBox list \<Rightarrow> AnnotationScene" where
  "restore_state self state =
     self\<lparr>boxes :=
            map (\<lambda>bbox. new_BoundingBox (rect bbox) (class_id bbox) (class_name bbox) None) state,
          selected_box := None\<rparr>"

definition undo :: "AnnotationScene \<Rightarrow> AnnotationScene \<times> bool" where
  "undo self =
     (if undo_stack self = [] then (self, False)
      else
        (let current_state = copy_boxes (boxes self);
             s1 = self\<lparr>redo_stack := redo_stack self @ [current_state]\<rparr>;
             previous_state = last (undo_stack s1);
             s2 = s1\<lparr>undo_stack := butlast (undo_stack s1)\<rparr>
         in (restore_state s2 previous_state, True)))"

definition redo :: "AnnotationScene \<Rightarrow> AnnotationScene \<times> bool" where
  "redo self =
     (if redo_stack self = [] then (self, False)
      else
        (let current_state = copy_boxes (boxes self);
             s1 = self\<lparr>undo_stack := undo_stack self @ [current_state]\<rparr>;
             redo_state = last (redo_stack s1);
             s2 = s1\<lparr>redo_stack := butlast (redo_stack s1)\<rparr>
         in (restore_state s2 redo_state, True)))"

subsection \<open>Drawing, deleting and editing\<close>

datatype MouseButton = LeftButton | RightButton | MiddleButton

text \<open>
  \<^verbatim>\<open>select_box\<close> and \<^verbatim>\<open>select_box_by_item\<close> (lines 486 to 521); the pens are
  rendering. A graphics item is known to the model by the position in \<^verbatim>\<open>boxes\<close> of the
  box it belongs to, \<^term>\<open>None\<close> when no box has it.
\<close>

definition select_box :: "AnnotationScene \<Rightarrow> BoundingBox option \<Rightarrow> AnnotationScene" where
  "select_box self bbox = self\<lparr>selected_box := bbox\<rparr>"

definition select_box_by_item :: "AnnotationScene \<Rightarrow> nat option \<Rightarrow> AnnotationScene" where
  "select_box_by_item self item =
     (case item of
        None \<Rightarrow> self
      | Some i \<Rightarrow> if i < length (boxes self) then select_box self (Some (boxes self ! i)) else self)"

text \<open>
  PyQt gives a \<^verbatim>\<open>QPointF\<close> the truth value \<^verbatim>\<open>not isNull()\<close>: the point \<open>(0, 0)\<close> is
  false.
\<close>

definition QPointF_isNull :: "rat \<times> rat \<Rightarrow> bool" where
  "QPointF_isNull p = (fst p = 0 \<and> snd p = 0)"

text \<open>
  What \<^verbatim>\<open>itemAt\<close> finds under the pointer: a resize handle, a rectangle item other than
  the provisional box (with the position of its box), the provisional box itself, or anything
  else (the image, a label, nothing).
\<close>

datatype item_at = ResizeHandleItem | RectItem "nat option" | CurrentBoxItem | OtherItem

text \<open>
  \<^verbatim>\<open>finish_editing\<close> (lines 597 to 624) writes the scene rectangle of the edited item into
  the box that \<^verbatim>\<open>self.editing_box\<close> refers to. The reference and the graphics item live
  outside the model: the argument is \<^term>\<open>None\<close> when \<^verbatim>\<open>editing_box\<close> is \<^verbatim>\<open>None\<close>, and
  otherwise the position of the referred box in \<^verbatim>\<open>boxes\<close> (a position past the end when
  the box is no longer in the list) with the rectangle \<^verbatim>\<open>rect_in_scene\<close>.
\<close>

definition finish_editing ::
  "AnnotationScene \<Rightarrow> (nat \<times> QRectF) option \<Rightarrow> AnnotationScene" where
  "finish_editing self editing =
     (case editing of
        None \<Rightarrow> self
      | Some (i, rect_in_scene) \<Rightarrow>
          if i < length (boxes self)
          then self\<lparr>boxes := (boxes self)[i := (boxes self ! i)\<lparr>rect := rect_in_scene\<rparr>]\<rparr>
          else self)"

text \<open>
  \<^verbatim>\<open>mousePressEvent\<close> (lines 385 to 424), for the button and the scene position of the
  event, the item under the pointer and the argument of \<^verbatim>\<open>finish_editing\<close>. A draw
  starts only when a class is selected (the name is not empty); the new
  \<^verbatim>\<open>QGraphicsRectItem()\<close> has the null rectangle. The pen and the default handling of the
  event by Qt are rendering.
\<close>

definition mousePressEvent ::
  "AnnotationScene \<Rightarrow> MouseButton \<Rightarrow> rat \<times> rat \<Rightarrow> item_at \<Rightarrow> (nat \<times> QRectF) option \<Rightarrow>
   AnnotationScene" where
  "mousePressEvent self button scenePos item editing =
     (if button = LeftButton \<and> drawing_enabled self then
        (if item = ResizeHandleItem then self
         else
           (case item of
              RectItem i \<Rightarrow> select_box_by_item self i
            | _ \<Rightarrow>
                (let s1 = finish_editing (select_box self None) editing
                 in if current_class_name s1 \<noteq> []
                    then s1\<lparr>start_point := Some scenePos,
                            current_box := Some \<lparr>xp = 0, yp = 0, wd = 0, ht = 0\<rparr>\<rparr>
                    else s1)))
      else self)"

text \<open>
  \<^verbatim>\<open>mouseMoveEvent\<close> (lines 426 to 438). The guard of line 432 tests the truth values of
  \<^verbatim>\<open>current_box\<close> and of \<^verbatim>\<open>start_point\<close>: the rectangle is set only when a draw is in
  progress and the start point is not the null point.
\<close>

definition mouseMoveEvent :: "AnnotationScene \<Rightarrow> rat \<times> rat \<Rightarrow> AnnotationScene" where
  "mouseMoveEvent self current_point =
     (case current_box self of
        None \<Rightarrow> self
      | Some _ \<Rightarrow>
          (case start_point self of
             None \<Rightarrow> self
           | Some start \<Rightarrow>
               if QPointF_isNull start then self
               else self\<lparr>current_box := Some (normalized (QRectF_points start current_point))\<rparr>))"

text \<open>
  \<^verbatim>\<open>mouseReleaseEvent\<close> (lines 440 to 484), for the button of the event. The signal
  \<^verbatim>\<open>box_created\<close>, the pen and the label are rendering.
\<close>

definition mouseReleaseEvent :: "AnnotationScene \<Rightarrow> MouseButton \<Rightarrow> AnnotationScene" where
  "mouseReleaseEvent self button =
     (case current_box self of
        None \<Rightarrow> self
      | Some r \<Rightarrow>
          if button \<noteq> LeftButton then self
          else
            (let s1 =
               (if 5 < rect_width r \<and> 5 < rect_height r then
                  (let s2 = save_state self;
                       c = get_box_color s2 (current_class_id s2);
                       bbox = new_BoundingBox r (current_class_id s2) (current_class_name s2)
                                (Some c)
                   in s2\<lparr>boxes := boxes s2 @ [bbox]\<rparr>)
                else self)
             in s1\<lparr>current_box := None, start_point := None\<rparr>))"

text \<open>
  Python's \<^verbatim>\<open>xs[i]\<close> and \<^verbatim>\<open>xs.pop(i)\<close>: a negative index counts from the end, an index
  out of range raises \<^verbatim>\<open>IndexError\<close>.
\<close>

definition py_getitem :: "'a list \<Rightarrow> int \<Rightarrow> py_error + 'a" where
  "py_getitem xs i =
     (let j = (if i < 0 then i + int (length xs) else i)
      in if 0 \<le> j \<and> j < int (length xs) then Inr (xs ! nat j) else Inl IndexError)"

definition py_pop :: "'a list \<Rightarrow> int \<Rightarrow> py_error + 'a list" where
  "py_pop xs i =
     (let j = (if i < 0 then i + int (length xs) else i)
      in if 0 \<le> j \<and> j < int (length xs) then Inr (take (nat j) xs @ drop (Suc (nat j)) xs)
         else Inl IndexError)"

text \<open>
  The loop of \<^verbatim>\<open>delete_selected_boxes\<close> (lines 532 to 537) over the indices already
  sorted in descending order.
\<close>

fun delete_loop :: "int list \<Rightarrow> BoundingBox list \<Rightarrow> py_error + BoundingBox list" where
  "delete_loop [] bs = Inr bs"
| "delete_loop (i # is) bs =
     (if 0 \<le> i \<and> i < int (length bs) then
        (case py_getitem bs i of
           Inl e \<Rightarrow> Inl e
         | Inr bbox \<Rightarrow>
             (case py_pop bs i of
                Inl e \<Rightarrow> Inl e
              | Inr bs' \<Rightarrow> delete_loop is bs'))
      else delete_loop is bs)"

definition delete_selected_boxes ::
  "AnnotationScene \<Rightarrow> int list \<Rightarrow> py_error + AnnotationScene" where
  "delete_selected_boxes self indices =
     (let s1 = save_state self
      in case delete_loop (rev (sort indices)) (boxes s1) of
           Inl e \<Rightarrow> Inl e
         | Inr bs \<Rightarrow> Inr (s1\<lparr>boxes := bs, selected_box := None\<rparr>))"

text \<open>
  The operations a user performs on an open image that change the box list, and the choice of
  the current class: a completed draw gesture (the provisional rectangle, then the release of
  the left button), a deletion, the end of an edit, a class selection.
\<close>

datatype user_op =
  Draw QRectF
  | Delete "int list"
  | Edit "(nat \<times> QRectF) option"
  | SelectClass int string "QColor option"

fun apply_op :: "AnnotationScene \<Rightarrow> user_op \<Rightarrow> py_error + AnnotationScene" where
  "apply_op s (Draw r) = Inr (mouseReleaseEvent (s\<lparr>current_box := Some r\<rparr>) LeftButton)"
| "apply_op s (Delete indices) = delete_selected_boxes s indices"
| "apply_op s (Edit editing) = Inr (finish_editing s editing)"
| "apply_op s (SelectClass cid cname col) = Inr (set_current_class s cid cname col)"

fun run_ops :: "AnnotationScene \<Rightarrow> user_op list \<Rightarrow> py_error + AnnotationScene" where
  "run_ops s [] = Inr s"
| "run_ops s (x # xs) = (case apply_op s x of Inl e \<Rightarrow> Inl e | Inr s' \<Rightarrow> run_ops s' xs)"

definition undo_times :: "nat \<Rightarrow> AnnotationScene \<Rightarrow> AnnotationScene" where
  "undo_times n s = ((\<lambda>t. fst (undo t)) ^^ n) s"

definition redo_times :: "nat \<Rightarrow> AnnotationScene \<Rightarrow> AnnotationScene" where
  "redo_times n s = ((\<lambda>t. fst (redo t)) ^^ n) s"

section \<open>The resize handle\<close>

text \<open>
  \<^verbatim>\<open>class ResizeHandle\<close> (lines 51 to 115). \<^verbatim>\<open>parent_bbox\<close> is the rectangle of the
  graphics item the handle belongs to. \<^verbatim>\<open>start_rect\<close> and \<^verbatim>\<open>start_pos\<close> are both
  \<^verbatim>\<open>None\<close> until a press of the left button sets both.
\<close>

record ResizeHandle =
  position :: string
  parent_bbox :: QRectF
  start_rect :: "QRectF option"
  start_pos :: "(rat \<times> rat) option"

definition ResizeHandle_mousePressEvent ::
  "ResizeHandle \<Rightarrow> MouseButton \<Rightarrow> rat \<times> rat \<Rightarrow> ResizeHandle" where
  "ResizeHandle_mousePressEvent self button scenePos =
     (if button = LeftButton
      then self\<lparr>start_rect := Some (parent_bbox self), start_pos := Some scenePos\<rparr>
      else self)"



section \<open>The main window: class list and annotation files\<close>

text \<open>
  The part of \<^verbatim>\<open>class MainWindow\<close> that holds the class registry and reads and writes
  files. \<^verbatim>\<open>class_id_map\<close> is a Python dictionary from class id to name, kept as an
  association list; \<^verbatim>\<open>classes\<close> is the list of names in ascending order of id, rebuilt
  whenever the dictionary changes. A function that writes a file returns the text it writes,
  \<^term>\<open>None\<close> when it writes nothing.
\<close>

record MainWindow =
  scene :: AnnotationScene
  current_image_path :: "string option"
  class_file_path :: "string option"
  classes :: "string list"
  class_id_map :: "(int \<times> string) list"

definition init_window :: MainWindow where
  "init_window =
     \<lparr>scene = init_scene, current_image_path = None, class_file_path = None, classes = [],
      class_id_map = []\<rparr>"

text \<open>
  \<^verbatim>\<open>add_class\<close> (lines 1320 to 1382) after its dialogs: the name typed, the id chosen and
  the colour picked (\<^term>\<open>None\<close> when the colour dialog is cancelled).
\<close>

definition add_class :: "MainWindow \<Rightarrow> string \<Rightarrow> int \<Rightarrow> QColor option \<Rightarrow> MainWindow" where
  "add_class self name cid picked =
     (if name = [] then self
      else
        (let cname = py_strip name
         in if cname \<in> set (map snd (class_id_map self)) then self
            else
              (let c = (case picked of Some c \<Rightarrow> c | None \<Rightarrow> get_box_color (scene self) cid);
                   m = AList.update cid cname (class_id_map self);
                   sorted_ids = sort (map fst m)
               in self\<lparr>class_id_map := m,
                       classes := map (\<lambda>k. the (map_of m k)) sorted_ids,
                       scene := set_class_color (scene self) cid c\<rparr>)))"

definition newline :: char where
  "newline = CHR 0x0A"

text \<open>\<^verbatim>\<open>save_classes\<close> (lines 1447 to 1460), called when the labels directory is set.\<close>

definition save_classes :: "MainWindow \<Rightarrow> string option" where
  "save_classes self =
     (case class_file_path self of
        None \<Rightarrow> None
      | Some path \<Rightarrow> Some (concat (map (\<lambda>cname. cname @ [newline]) (classes self))))"

text \<open>
  \<^verbatim>\<open>save_classes_file\<close> (lines 1462 to 1511), the Save Classes button; \<open>file_path\<close> is
  the path chosen in the dialog, empty when the dialog is cancelled.
\<close>

definition save_classes_file :: "MainWindow \<Rightarrow> string \<Rightarrow> MainWindow \<times> string option" where
  "save_classes_file self file_path =
     (if classes self = [] then (self, None)
      else if file_path = [] then (self, None)
      else
        (self\<lparr>class_file_path := Some file_path\<rparr>,
         Some (concat (map (\<lambda>(i, cname). ''['' @ py_str_int (int i) @ ''] '' @ cname @ [newline])
                        (List.enumerate 0 (classes self))))))"

text \<open>
  The loop of \<^verbatim>\<open>load_annotations\<close> (lines 1937 to 1975) over the lines of the file. The
  call \<^verbatim>\<open>int(parts[0])\<close> of line 1946 stands in the \<^verbatim>\<open>try\<close> block that encloses the
  whole loop: its \<^verbatim>\<open>ValueError\<close> ends the loop, and the boxes appended so far stay. So
  does an \<^verbatim>\<open>OverflowError\<close> that \<^verbatim>\<open>from_yolo_format\<close> lets pass. The box decoded
  from a line enters the scene; when one of its coordinates is infinite or a nan, which the
  rectangles of the scene model cannot hold, the result is \<^term>\<open>None\<close>: the model does not
  say what the scene is then.
\<close>

fun load_loop ::
  "(int \<times> string) list \<Rightarrow> int \<Rightarrow> int \<Rightarrow> string list \<Rightarrow> BoundingBox list \<Rightarrow>
   (BoundingBox list \<times> py_error option) option" where
  "load_loop m iw ih [] bs = Some (bs, None)"
| "load_loop m iw ih (l # ls) bs =
     (let line = py_strip l
      in if line = [] then load_loop m iw ih ls bs
         else
           (let parts = py_split line
            in if length parts \<noteq> 5 then load_loop m iw ih ls bs
               else
                 (case py_int (parts ! 0) of
                    None \<Rightarrow> Some (bs, Some ValueError)
                  | Some cid \<Rightarrow>
                      (let cname = (case map_of m cid of
                                      Some n \<Rightarrow> n
                                    | None \<Rightarrow> ''class_'' @ py_str_int cid)
                       in case from_yolo_format line iw ih cname of
                            Inl e \<Rightarrow> Some (bs, Some e)
                          | Inr None \<Rightarrow> load_loop m iw ih ls bs
                          | Inr (Some bbox) \<Rightarrow>
                              (case scene_box bbox of
                                 None \<Rightarrow> None
                               | Some b \<Rightarrow> load_loop m iw ih ls (bs @ [b]))))))"

text \<open>
  \<^verbatim>\<open>load_annotations\<close> (lines 1920 to 1984). \<open>file\<close> holds the lines of the annotation
  file, \<^term>\<open>None\<close> when the file does not exist. The boolean tells whether the warning
  ``Failed to load annotations'' was shown.
\<close>

definition load_annotations ::
  "MainWindow \<Rightarrow> string list option \<Rightarrow> (MainWindow \<times> bool) option" where
  "load_annotations self file =
     (case current_image_path self of
        None \<Rightarrow> Some (self, False)
      | Some path \<Rightarrow>
          (case file of
             None \<Rightarrow> Some (self, False)
           | Some ls \<Rightarrow>
               (case load_loop (class_id_map self) (image_width (scene self))
                       (image_height (scene self)) ls (boxes (scene self)) of
                  None \<Rightarrow> None
                | Some (bs, err) \<Rightarrow>
                    Some (self\<lparr>scene := (scene self)\<lparr>boxes := bs\<rparr>\<rparr>, err \<noteq> None))))"

section \<open>An invariant of the history\<close>

text \<open>
  What holds of the history stacks as long as no undo or redo has been performed on a
  document that started empty: the redo stack is empty, and the oldest snapshot, when there
  is one, is the empty box list; without any snapshot the document is still empty.
\<close>

definition history_inv :: "AnnotationScene \<Rightarrow> bool" where
  "history_inv s =
     (redo_stack s = [] \<and> (if undo_stack s = [] then boxes s = [] else hd (undo_stack s) = []))"

section \<open>Properties of the scene\<close>

subsection \<open>Committing a draw\<close>

text \<open>
  The release of the left button over a provisional box \<open>r\<close>: the box is appended exactly
  when its width and its height both exceed 5, with the current class id and name and the
  display colour of the current class id; a snapshot is pushed before the append and only
  then; the provisional box is gone afterwards.
\<close>

lemma release_threshold:
  assumes cb: "current_box s = Some r"
  shows "5 < rect_width r \<and> 5 < rect_height r \<Longrightarrow>
           boxes (mouseReleaseEvent s LeftButton) =
             boxes s @ [\<lparr>rect = r, class_id = current_class_id s,
                          class_name = current_class_name s,
                          color = Some (get_box_color s (current_class_id s))\<rparr>] \<and>
           undo_stack (mouseReleaseEvent s LeftButton) = undo_stack s @ [copy_boxes (boxes s)] \<and>
           redo_stack (mouseReleaseEvent s LeftButton) = []"
    and "\<not> (5 < rect_width r \<and> 5 < rect_height r) \<Longrightarrow>
           boxes (mouseReleaseEvent s LeftButton) = boxes s \<and>
           undo_stack (mouseReleaseEvent s LeftButton) = undo_stack s \<and>
           redo_stack (mouseReleaseEvent s LeftButton) = redo_stack s"
    and "current_box (mouseReleaseEvent s LeftButton) = None"
proof -
  show "boxes (mouseReleaseEvent s LeftButton) =
             boxes s @ [\<lparr>rect = r, class_id = current_class_id s,
                          class_name = current_class_name s,
                          color = Some (get_box_color s (current_class_id s))\<rparr>] \<and>
           undo_stack (mouseReleaseEvent s LeftButton) = undo_stack s @ [copy_boxes (boxes s)] \<and>
           redo_stack (mouseReleaseEvent s LeftButton) = []"
    if "5 < rect_width r \<and> 5 < rect_height r"
    using cb that
    by (simp add: mouseReleaseEvent_def save_state_def get_box_color_def new_BoundingBox_def
        Let_def split: option.splits)
  show "boxes (mouseReleaseEvent s LeftButton) = boxes s \<and>
           undo_stack (mouseReleaseEvent s LeftButton) = undo_stack s \<and>
           redo_stack (mouseReleaseEvent s LeftButton) = redo_stack s"
    if "\<not> (5 < rect_width r \<and> 5 < rect_height r)"
    using cb that by (auto simp: mouseReleaseEvent_def Let_def)
  show "current_box (mouseReleaseEvent s LeftButton) = None"
    using cb by (simp add: mouseReleaseEvent_def Let_def)
qed

text \<open>
  A draw that starts away from the null point: after one move the provisional box spans the
  drag, whatever its direction.
\<close>

lemma drag_sets_rect:
  assumes "drawing_enabled s" and "current_class_name s \<noteq> []" and "\<not> (x = 0 \<and> y = 0)"
  shows "current_box (mouseMoveEvent (mousePressEvent s LeftButton (x, y) OtherItem None)
                        (x + dx, y + dy)) =
         Some \<lparr>xp = (if dx < 0 then x + dx else x), yp = (if dy < 0 then y + dy else y),
               wd = \<bar>dx\<bar>, ht = \<bar>dy\<bar>\<rparr>"
  using assms
  by (auto simp: mouseMoveEvent_def mousePressEvent_def finish_editing_def select_box_def
      QPointF_isNull_def normalized_def QRectF_points_def Let_def)

text \<open>
  A draw that starts at the null point: the guard of line 432 fails at every move, so the
  provisional box keeps the null rectangle and the release discards it, wherever the pointer
  went.
\<close>

lemma origin_drag_discarded:
  assumes "drawing_enabled s" and "current_class_name s \<noteq> []"
  shows "current_box (mouseMoveEvent (mousePressEvent s LeftButton (0, 0) OtherItem None) q) =
           Some \<lparr>xp = 0, yp = 0, wd = 0, ht = 0\<rparr>"
    and "boxes (mouseReleaseEvent
                  (mouseMoveEvent (mousePressEvent s LeftButton (0, 0) OtherItem None) q)
                  LeftButton) = boxes s"
  using assms
  by (simp_all add: mouseReleaseEvent_def mouseMoveEvent_def mousePressEvent_def
      finish_editing_def select_box_def QPointF_isNull_def rect_width_def rect_height_def
      Let_def)

text \<open>
  Claim C7. On the release that ends a draw the provisional box is appended exactly when its
  width and height both exceed 5 pixels; a drag spanning 4 by 4 pixels never adds a box and
  a drag spanning 6 by 6 pixels does. The code departs from the last part: with class 2
  \<open>fish\<close> selected on an empty document, the drag from the scene point \<open>(0, 0)\<close> to
  \<open>(6, 6)\<close> leaves the provisional box at the null rectangle, because line 432 reads the
  start point \<open>(0, 0)\<close> as false, and the release adds no box and pushes no snapshot. The
  same drag from \<open>(1, 1)\<close> to \<open>(7, 7)\<close> adds the 6 by 6 box, and the drag from \<open>(1, 1)\<close>
  to \<open>(5, 5)\<close>, 4 by 4, adds none.
\<close>

theorem draw_from_origin_adds_no_box:
  "current_box
     (mouseMoveEvent
        (mousePressEvent (set_current_class init_scene 2 ''fish'' None) LeftButton (0, 0)
           OtherItem None)
        (6, 6)) = Some \<lparr>xp = 0, yp = 0, wd = 0, ht = 0\<rparr> \<and>
   boxes
     (mouseReleaseEvent
        (mouseMoveEvent
           (mousePressEvent (set_current_class init_scene 2 ''fish'' None) LeftButton (0, 0)
              OtherItem None)
           (6, 6))
        LeftButton) = [] \<and>
   undo_stack
     (mouseReleaseEvent
        (mouseMoveEvent
           (mousePressEvent (set_current_class init_scene 2 ''fish'' None) LeftButton (0, 0)
              OtherItem None)
           (6, 6))
        LeftButton) = [] \<and>
   boxes
     (mouseReleaseEvent
        (mouseMoveEvent
           (mousePressEvent (set_current_class init_scene 2 ''fish'' None) LeftButton (1, 1)
              OtherItem None)
           (7, 7))
        LeftButton) =
     [\<lparr>rect = \<lparr>xp = 1, yp = 1, wd = 6, ht = 6\<rparr>, class_id = 2, class_name = ''fish'',
       color = Some (QColor 0 0 255 150)\<rparr>] \<and>
   boxes
     (mouseReleaseEvent
        (mouseMoveEvent
           (mousePressEvent (set_current_class init_scene 2 ''fish'' None) LeftButton (1, 1)
              OtherItem None)
           (5, 5))
        LeftButton) = []"
  by code_simp

subsection \<open>Snapshots and colour\<close>

lemma copy_boxes_eq: "copy_boxes bs = map (\<lambda>b. b\<lparr>color := None\<rparr>) bs"
  by (simp add: copy_boxes_def new_BoundingBox_def)

lemma restore_boxes: "boxes (restore_state s st) = copy_boxes st"
  by (simp add: restore_state_def copy_boxes_def)

lemma copy_boxes_idem: "copy_boxes (copy_boxes bs) = copy_boxes bs"
  by (simp add: copy_boxes_eq)

text \<open>
  Claim C10. A snapshot taken by \<^verbatim>\<open>save_state\<close> and the boxes rebuilt by
  \<^verbatim>\<open>restore_state\<close> are the given boxes with the colour set to \<^verbatim>\<open>None\<close> and every other
  field (rectangle, class id, class name) unchanged. Hence after an undo that has a snapshot
  to restore, every box of the document has no colour and the boxes are those of the popped
  snapshot; the state pushed on the redo stack is the live boxes without their colours; and
  undo followed by redo gives back the boxes that were live, each with its rectangle, class
  id and class name, and with colour \<^verbatim>\<open>None\<close>. The same holds for redo, mirrored.
\<close>

theorem history_drops_color:
  "last (undo_stack (save_state s)) = map (\<lambda>b. b\<lparr>color := None\<rparr>) (boxes s) \<and>
   boxes (restore_state s st) = map (\<lambda>b. b\<lparr>color := None\<rparr>) st \<and>
   (undo_stack s \<noteq> [] \<longrightarrow>
      (\<forall>b \<in> set (boxes (fst (undo s))). color b = None) \<and>
      boxes (fst (undo s)) = map (\<lambda>b. b\<lparr>color := None\<rparr>) (last (undo_stack s)) \<and>
      last (redo_stack (fst (undo s))) = map (\<lambda>b. b\<lparr>color := None\<rparr>) (boxes s) \<and>
      boxes (fst (redo (fst (undo s)))) = map (\<lambda>b. b\<lparr>color := None\<rparr>) (boxes s)) \<and>
   (redo_stack s \<noteq> [] \<longrightarrow>
      (\<forall>b \<in> set (boxes (fst (redo s))). color b = None) \<and>
      boxes (fst (redo s)) = map (\<lambda>b. b\<lparr>color := None\<rparr>) (last (redo_stack s)) \<and>
      last (undo_stack (fst (redo s))) = map (\<lambda>b. b\<lparr>color := None\<rparr>) (boxes s) \<and>
      boxes (fst (undo (fst (redo s)))) = map (\<lambda>b. b\<lparr>color := None\<rparr>) (boxes s))"
proof -
  have a: "last (undo_stack (save_state s)) = map (\<lambda>b. b\<lparr>color := None\<rparr>) (boxes s)"
    by (simp add: save_state_def copy_boxes_eq)
  have b: "boxes (restore_state s st) = map (\<lambda>b. b\<lparr>color := None\<rparr>) st"
    by (simp add: restore_boxes copy_boxes_eq)
  have u: "undo_stack s \<noteq> [] \<Longrightarrow>
      (\<forall>b \<in> set (boxes (fst (undo s))). color b = None) \<and>
      boxes (fst (undo s)) = map (\<lambda>b. b\<lparr>color := None\<rparr>) (last (undo_stack s)) \<and>
      last (redo_stack (fst (undo s))) = map (\<lambda>b. b\<lparr>color := None\<rparr>) (boxes s) \<and>
      boxes (fst (redo (fst (undo s)))) = map (\<lambda>b. b\<lparr>color := None\<rparr>) (boxes s)"
    by (simp add: undo_def redo_def Let_def restore_state_def new_BoundingBox_def copy_boxes_eq)
  have r: "redo_stack s \<noteq> [] \<Longrightarrow>
      (\<forall>b \<in> set (boxes (fst (redo s))). color b = None) \<and>
      boxes (fst (redo s)) = map (\<lambda>b. b\<lparr>color := None\<rparr>) (last (redo_stack s)) \<and>
      last (undo_stack (fst (redo s))) = map (\<lambda>b. b\<lparr>color := None\<rparr>) (boxes s) \<and>
      boxes (fst (undo (fst (redo s)))) = map (\<lambda>b. b\<lparr>color := None\<rparr>) (boxes s)"
    by (simp add: undo_def redo_def Let_def restore_state_def new_BoundingBox_def copy_boxes_eq)
  from a b u r show ?thesis by blast
qed

theorem history_drops_color_witness:
  "boxes (fst (redo (fst (undo
     (init_scene\<lparr>boxes := [\<lparr>rect = \<lparr>xp = 1, yp = 2, wd = 30, ht = 40\<rparr>, class_id = 3,
                               class_name = ''crab'', color = Some (QColor 9 9 9 255)\<rparr>],
                   undo_stack := [[]]\<rparr>))))) =
     [\<lparr>rect = \<lparr>xp = 1, yp = 2, wd = 30, ht = 40\<rparr>, class_id = 3, class_name = ''crab'',
       color = None\<rparr>] \<and>
   boxes (fst (undo
     (init_scene\<lparr>boxes := [\<lparr>rect = \<lparr>xp = 1, yp = 2, wd = 30, ht = 40\<rparr>, class_id = 3,
                               class_name = ''crab'', color = Some (QColor 9 9 9 255)\<rparr>],
                   undo_stack := [[]]\<rparr>))) = []"
proof -
  let ?s = "init_scene\<lparr>boxes := [\<lparr>rect = \<lparr>xp = 1, yp = 2, wd = 30, ht = 40\<rparr>, class_id = 3,
                               class_name = ''crab'', color = Some (QColor 9 9 9 255)\<rparr>],
                   undo_stack := [[]]\<rparr>"
  have h: "undo_stack ?s \<noteq> []" by simp
  from history_drops_color [of ?s "[]"] h show ?thesis by simp
qed

subsection \<open>Deleting with indices out of range\<close>

lemma py_getitem_in_range:
  "0 \<le> i \<Longrightarrow> i < int (length xs) \<Longrightarrow> py_getitem xs i = Inr (xs ! nat i)"
  by (simp add: py_getitem_def)

lemma py_pop_in_range:
  "0 \<le> i \<Longrightarrow> i < int (length xs) \<Longrightarrow>
   py_pop xs i = Inr (take (nat i) xs @ drop (Suc (nat i)) xs)"
  by (simp add: py_pop_def)

lemma delete_loop_total: "\<exists>bs'. delete_loop is bs = Inr bs' \<and> length bs' \<le> length bs"
proof (induction "is" arbitrary: bs)
  case Nil
  show ?case by simp
next
  case (Cons i "is")
  show ?case
  proof (cases "0 \<le> i \<and> i < int (length bs)")
    case True
    let ?bs = "take (nat i) bs @ drop (Suc (nat i)) bs"
    from Cons.IH [of ?bs] obtain bs'
      where "delete_loop is ?bs = Inr bs'" "length bs' \<le> length ?bs"
      by blast
    with True show ?thesis
      by (auto simp: py_getitem_in_range py_pop_in_range)
  next
    case False
    with Cons.IH [of bs] show ?thesis by auto
  qed
qed

lemma delete_loop_filter:
  "int (length bs) \<le> n \<Longrightarrow>
   delete_loop (filter (\<lambda>i. 0 \<le> i \<and> i < n) is) bs = delete_loop is bs"
proof (induction "is" arbitrary: bs)
  case Nil
  show ?case by simp
next
  case (Cons i "is")
  show ?case
  proof (cases "0 \<le> i \<and> i < int (length bs)")
    case True
    let ?bs = "take (nat i) bs @ drop (Suc (nat i)) bs"
    have "int (length ?bs) \<le> n" using Cons.prems by auto
    from Cons.IH [OF this] True Cons.prems show ?thesis
      by (simp add: py_getitem_in_range py_pop_in_range)
  next
    case False
    with Cons.IH [OF Cons.prems] show ?thesis by auto
  qed
qed

lemma delete_loop_all_out:
  "\<forall>i \<in> set is. i < 0 \<or> int (length bs) \<le> i \<Longrightarrow> delete_loop is bs = Inr bs"
  by (induction "is") auto

text \<open>
  Claim C5, as amended. \<^verbatim>\<open>delete_selected_boxes\<close> never fails: no list of indices makes
  it raise \<^verbatim>\<open>IndexError\<close> or any other error. An index outside \<open>[0, len(boxes))\<close> is
  skipped by the range test of the loop: the call has exactly the effect of the call with the
  out-of-range indices removed from the list, and when every index is out of range the box
  sequence after the call is the box sequence before it.
\<close>

theorem delete_out_of_range_skipped:
  "(\<exists>s'. delete_selected_boxes s indices = Inr s') \<and>
   delete_selected_boxes s indices =
     delete_selected_boxes s (filter (\<lambda>i. 0 \<le> i \<and> i < int (length (boxes s))) indices) \<and>
   ((\<forall>i \<in> set indices. i < 0 \<or> int (length (boxes s)) \<le> i) \<longrightarrow>
      (\<exists>s'. delete_selected_boxes s indices = Inr s' \<and> boxes s' = boxes s))"
proof -
  let ?P = "\<lambda>i. 0 \<le> i \<and> i < int (length (boxes s))"
  have bs: "boxes (save_state s) = boxes s"
    by (simp add: save_state_def)
  obtain bs' where l: "delete_loop (rev (sort indices)) (boxes s) = Inr bs'"
    using delete_loop_total by blast
  have total: "\<exists>s'. delete_selected_boxes s indices = Inr s'"
    by (simp add: delete_selected_boxes_def Let_def bs l)
  have "rev (sort (filter ?P indices)) = filter ?P (rev (sort indices))"
    by (simp only: rev_filter filter_sort [symmetric])
  then have "delete_loop (rev (sort (filter ?P indices))) (boxes s) =
      delete_loop (rev (sort indices)) (boxes s)"
    by (simp add: delete_loop_filter)
  then have filt: "delete_selected_boxes s indices = delete_selected_boxes s (filter ?P indices)"
    by (simp add: delete_selected_boxes_def Let_def bs)
  have out: "\<exists>s'. delete_selected_boxes s indices = Inr s' \<and> boxes s' = boxes s"
    if "\<forall>i \<in> set indices. i < 0 \<or> int (length (boxes s)) \<le> i"
  proof -
    from that have "\<forall>i \<in> set (rev (sort indices)). i < 0 \<or> int (length (boxes s)) \<le> i"
      by simp
    then have "delete_loop (rev (sort indices)) (boxes s) = Inr (boxes s)"
      by (rule delete_loop_all_out)
    then show ?thesis
      by (simp add: delete_selected_boxes_def Let_def bs)
  qed
  from total filt out show ?thesis by blast
qed

theorem delete_out_of_range_skipped_witness:
  "map_sum id boxes
     (delete_selected_boxes
        (init_scene\<lparr>boxes := [\<lparr>rect = \<lparr>xp = 1, yp = 2, wd = 30, ht = 40\<rparr>, class_id = 3,
                                 class_name = ''crab'', color = None\<rparr>]\<rparr>)
        [5, - 1, 1]) =
   Inr [\<lparr>rect = \<lparr>xp = 1, yp = 2, wd = 30, ht = 40\<rparr>, class_id = 3, class_name = ''crab'',
         color = None\<rparr>]"
proof -
  let ?s = "init_scene\<lparr>boxes := [\<lparr>rect = \<lparr>xp = 1, yp = 2, wd = 30, ht = 40\<rparr>, class_id = 3,
                                 class_name = ''crab'', color = None\<rparr>]\<rparr>"
  have h: "\<forall>i \<in> set [5, - 1, 1]. i < 0 \<or> int (length (boxes ?s)) \<le> i" by simp
  from delete_out_of_range_skipped [of ?s "[5, - 1, 1]"] h
  obtain s' where "delete_selected_boxes ?s [5, - 1, 1] = Inr s'" "boxes s' = boxes ?s"
    by blast
  then show ?thesis by simp
qed

text \<open>
  The claim as the specification states it fails on the empty document: deleting index 0
  returns normally, and the undo stack has grown by one snapshot.
\<close>

theorem delete_out_of_range_counterexample:
  "boxes init_scene = [] \<and> undo_stack init_scene = [] \<and>
   delete_selected_boxes init_scene [0] \<noteq> Inl IndexError \<and>
   delete_selected_boxes init_scene [0] = Inr (init_scene\<lparr>undo_stack := [[]]\<rparr>) \<and>
   undo_stack (init_scene\<lparr>undo_stack := [[]]\<rparr>) \<noteq> undo_stack init_scene"
  by (simp add: delete_selected_boxes_def init_scene_def save_state_def copy_boxes_def)

subsection \<open>Undo and redo\<close>

lemma copy_boxes_Nil: "copy_boxes [] = []"
  by (simp add: copy_boxes_def)

lemma undo_empty: "undo_stack s = [] \<Longrightarrow> undo s = (s, False)"
  by (simp add: undo_def)

lemma redo_empty: "redo_stack s = [] \<Longrightarrow> redo s = (s, False)"
  by (simp add: redo_def)

lemma undo_step:
  "undo_stack s \<noteq> [] \<Longrightarrow>
   undo s = (s\<lparr>redo_stack := redo_stack s @ [copy_boxes (boxes s)],
               undo_stack := butlast (undo_stack s),
               boxes := copy_boxes (last (undo_stack s)), selected_box := None\<rparr>, True)"
  by (simp add: undo_def Let_def restore_state_def copy_boxes_def)

lemma redo_step:
  "redo_stack s \<noteq> [] \<Longrightarrow>
   redo s = (s\<lparr>undo_stack := undo_stack s @ [copy_boxes (boxes s)],
               redo_stack := butlast (redo_stack s),
               boxes := copy_boxes (last (redo_stack s)), selected_box := None\<rparr>, True)"
  by (simp add: redo_def Let_def restore_state_def copy_boxes_def)

lemma undo_times_Suc: "undo_times (Suc n) s = undo_times n (fst (undo s))"
  using funpow_swap1 [of "\<lambda>t. fst (undo t)" n s] by (simp add: undo_times_def)

lemma redo_times_Suc: "redo_times (Suc n) s = redo_times n (fst (redo s))"
  using funpow_swap1 [of "\<lambda>t. fst (redo t)" n s] by (simp add: redo_times_def)

lemma undo_times_empty: "undo_stack s = [] \<Longrightarrow> undo_times n s = s"
  by (induction n) (simp_all add: undo_times_def undo_empty)

lemma redo_times_empty: "redo_stack s = [] \<Longrightarrow> redo_times n s = s"
  by (induction n) (simp_all add: redo_times_def redo_empty)

text \<open>
  Undoing at least as often as there are snapshots empties the undo stack, lands on the
  oldest snapshot and leaves on the redo stack the live boxes followed by the later
  snapshots, newest first.
\<close>

lemma undo_times_all:
  "undo_stack s = us \<Longrightarrow> length us \<le> n \<Longrightarrow>
   undo_stack (undo_times n s) = [] \<and>
   boxes (undo_times n s) = (if us = [] then boxes s else copy_boxes (hd us)) \<and>
   redo_stack (undo_times n s) =
     redo_stack s @ (if us = [] then [] else copy_boxes (boxes s) # rev (map copy_boxes (tl us)))"
proof (induction us arbitrary: s n rule: rev_induct)
  case Nil
  then show ?case by (simp add: undo_times_empty)
next
  case (snoc u us)
  from snoc.prems obtain m where n: "n = Suc m" and m: "length us \<le> m"
    by (cases n) auto
  let ?s1 = "fst (undo s)"
  have ne: "undo_stack s \<noteq> []" using snoc.prems by simp
  have s1: "undo_stack ?s1 = us" "boxes ?s1 = copy_boxes u"
    "redo_stack ?s1 = redo_stack s @ [copy_boxes (boxes s)]"
    using snoc.prems by (simp_all add: undo_step [OF ne])
  from snoc.IH [OF s1(1) m] show ?case
    by (cases us) (simp_all add: n undo_times_Suc s1 copy_boxes_idem)
qed

lemma redo_times_all:
  "redo_stack s = rs \<Longrightarrow> length rs \<le> n \<Longrightarrow>
   redo_stack (redo_times n s) = [] \<and>
   boxes (redo_times n s) = (if rs = [] then boxes s else copy_boxes (hd rs))"
proof (induction rs arbitrary: s n rule: rev_induct)
  case Nil
  then show ?case by (simp add: redo_times_empty)
next
  case (snoc r rs)
  from snoc.prems obtain m where n: "n = Suc m" and m: "length rs \<le> m"
    by (cases n) auto
  let ?s1 = "fst (redo s)"
  have ne: "redo_stack s \<noteq> []" using snoc.prems by simp
  have s1: "redo_stack ?s1 = rs" "boxes ?s1 = copy_boxes r"
    using snoc.prems by (simp_all add: redo_step [OF ne])
  from snoc.IH [OF s1(1) m] show ?case
    by (cases rs) (simp_all add: n redo_times_Suc s1 copy_boxes_idem)
qed

lemma save_state_inv: "history_inv s \<Longrightarrow> history_inv ((save_state s)\<lparr>boxes := bs\<rparr>)"
  by (auto simp: history_inv_def save_state_def copy_boxes_Nil split: if_splits)

lemma delete_selected_boxes_result:
  "\<exists>bs. delete_selected_boxes s is = Inr ((save_state s)\<lparr>boxes := bs, selected_box := None\<rparr>)"
proof -
  obtain bs where "delete_loop (rev (sort is)) (boxes (save_state s)) = Inr bs"
    using delete_loop_total by blast
  then show ?thesis by (auto simp: delete_selected_boxes_def Let_def)
qed

text \<open>Every operation keeps the invariant and pushes at most one snapshot.\<close>

lemma apply_op_inv:
  assumes "history_inv s"
  shows "\<exists>s'. apply_op s x = Inr s' \<and> history_inv s' \<and>
          length (undo_stack s') \<le> Suc (length (undo_stack s))"
proof (cases x)
  case (Draw r)
  show ?thesis
  proof (cases "5 < rect_width r \<and> 5 < rect_height r")
    case True
    then have "\<exists>bs. mouseReleaseEvent (s\<lparr>current_box := Some r\<rparr>) LeftButton =
      (save_state s)\<lparr>boxes := bs, current_box := None, start_point := None\<rparr>"
      by (auto simp: mouseReleaseEvent_def Let_def save_state_def)
    then obtain bs where m: "mouseReleaseEvent (s\<lparr>current_box := Some r\<rparr>) LeftButton =
      (save_state s)\<lparr>boxes := bs, current_box := None, start_point := None\<rparr>"
      by blast
    have "history_inv ((save_state s)\<lparr>boxes := bs\<rparr>)"
      using assms by (rule save_state_inv)
    then show ?thesis using Draw m
      by (simp add: history_inv_def save_state_def)
  next
    case False
    then have "mouseReleaseEvent (s\<lparr>current_box := Some r\<rparr>) LeftButton =
      s\<lparr>current_box := None, start_point := None\<rparr>"
      by (auto simp: mouseReleaseEvent_def Let_def)
    then show ?thesis using Draw assms
      by (simp add: history_inv_def)
  qed
next
  case (Delete "is")
  obtain bs where d: "delete_selected_boxes s is =
      Inr ((save_state s)\<lparr>boxes := bs, selected_box := None\<rparr>)"
    using delete_selected_boxes_result by blast
  have "history_inv ((save_state s)\<lparr>boxes := bs\<rparr>)"
    using assms by (rule save_state_inv)
  then show ?thesis using Delete d
    by (simp add: history_inv_def save_state_def)
next
  case (Edit e)
  show ?thesis using Edit assms
    by (auto simp: finish_editing_def history_inv_def split: option.splits if_splits)
next
  case (SelectClass cid cname col)
  show ?thesis using SelectClass assms
    by (auto simp: set_current_class_def history_inv_def Let_def split: option.splits if_splits)
qed

lemma run_ops_inv:
  "history_inv s \<Longrightarrow>
   \<exists>s'. run_ops s xs = Inr s' \<and> history_inv s' \<and>
        length (undo_stack s') \<le> length (undo_stack s) + length xs"
proof (induction xs arbitrary: s)
  case Nil
  then show ?case by simp
next
  case (Cons x xs)
  from apply_op_inv [OF Cons.prems, of x] obtain s1
    where s1: "apply_op s x = Inr s1" "history_inv s1"
      "length (undo_stack s1) \<le> Suc (length (undo_stack s))"
    by blast
  from Cons.IH [OF s1(2)] obtain s'
    where "run_ops s1 xs = Inr s'" "history_inv s'"
      "length (undo_stack s') \<le> length (undo_stack s1) + length xs"
    by blast
  with s1 show ?case by auto
qed

lemma undo_redo_all:
  assumes "history_inv s" "length (undo_stack s) \<le> n"
  shows "boxes (undo_times n s) = []"
    and "undo_stack (undo_times n s) = []"
    and "boxes (redo_times n (undo_times n s)) = copy_boxes (boxes s)"
proof -
  let ?u = "undo_times n s"
  from undo_times_all [OF refl assms(2)]
  have u: "undo_stack ?u = []"
    "boxes ?u = (if undo_stack s = [] then boxes s else copy_boxes (hd (undo_stack s)))"
    "redo_stack ?u = redo_stack s @
       (if undo_stack s = [] then []
        else copy_boxes (boxes s) # rev (map copy_boxes (tl (undo_stack s))))"
    by simp_all
  show "boxes ?u = []" using u(2) assms(1)
    by (auto simp: history_inv_def copy_boxes_Nil split: if_splits)
  show "undo_stack ?u = []" by (rule u(1))
  have len: "length (redo_stack ?u) \<le> n"
    using u(3) assms by (auto simp: history_inv_def split: if_splits)
  from redo_times_all [OF refl len]
  have "boxes (redo_times n ?u) =
      (if redo_stack ?u = [] then boxes ?u else copy_boxes (hd (redo_stack ?u)))"
    by simp
  then show "boxes (redo_times n ?u) = copy_boxes (boxes s)"
    using u assms(1)
    by (auto simp: history_inv_def copy_boxes_Nil copy_boxes_idem split: if_splits)
qed

text \<open>
  Claim C6. Start from an empty document (no boxes, both history stacks empty) and perform
  any sequence of \<open>N\<close> operations (completed draws, deletions, finished edits, class
  selections). The sequence runs without error. Undoing \<open>N\<close> times afterwards gives the
  empty box list again, with an empty undo stack; redoing \<open>N\<close> times after that gives the
  boxes that were there after the \<open>N\<close> operations, with the same rectangle, class id and
  class name each (the colour is \<^verbatim>\<open>None\<close>). A single undo with a non-empty undo stack appends
  a copy of the live boxes to the redo stack, removes the last entry of the undo stack and
  makes it the live boxes; a single redo is the mirror image; on an empty stack either
  returns \<^verbatim>\<open>False\<close> and changes nothing.
\<close>

theorem undo_redo_symmetry:
  "boxes s0 = [] \<and> undo_stack s0 = [] \<and> redo_stack s0 = [] \<Longrightarrow>
   (\<exists>s. run_ops s0 ops = Inr s \<and>
       boxes (undo_times (length ops) s) = [] \<and>
       undo_stack (undo_times (length ops) s) = [] \<and>
       boxes (redo_times (length ops) (undo_times (length ops) s)) =
         map (\<lambda>b. b\<lparr>color := None\<rparr>) (boxes s) \<and>
       map rect (boxes (redo_times (length ops) (undo_times (length ops) s))) =
         map rect (boxes s) \<and>
       map class_id (boxes (redo_times (length ops) (undo_times (length ops) s))) =
         map class_id (boxes s) \<and>
       map class_name (boxes (redo_times (length ops) (undo_times (length ops) s))) =
         map class_name (boxes s)) \<and>
   (undo_stack t \<noteq> [] \<longrightarrow>
      undo t = (t\<lparr>redo_stack := redo_stack t @ [copy_boxes (boxes t)],
                  undo_stack := butlast (undo_stack t),
                  boxes := copy_boxes (last (undo_stack t)), selected_box := None\<rparr>, True)) \<and>
   (redo_stack t \<noteq> [] \<longrightarrow>
      redo t = (t\<lparr>undo_stack := undo_stack t @ [copy_boxes (boxes t)],
                  redo_stack := butlast (redo_stack t),
                  boxes := copy_boxes (last (redo_stack t)), selected_box := None\<rparr>, True)) \<and>
   (undo_stack t = [] \<longrightarrow> undo t = (t, False)) \<and>
   (redo_stack t = [] \<longrightarrow> redo t = (t, False))"
proof -
  assume e: "boxes s0 = [] \<and> undo_stack s0 = [] \<and> redo_stack s0 = []"
  then have "history_inv s0" by (simp add: history_inv_def)
  from run_ops_inv [OF this, of ops] e obtain s
    where s: "run_ops s0 ops = Inr s" "history_inv s" "length (undo_stack s) \<le> length ops"
    by auto
  note r = undo_redo_all [OF s(2) s(3)]
  have "map rect (copy_boxes (boxes s)) = map rect (boxes s)"
    "map class_id (copy_boxes (boxes s)) = map class_id (boxes s)"
    "map class_name (copy_boxes (boxes s)) = map class_name (boxes s)"
    by (simp_all add: copy_boxes_eq)
  with s(1) r have main: "\<exists>s. run_ops s0 ops = Inr s \<and>
       boxes (undo_times (length ops) s) = [] \<and>
       undo_stack (undo_times (length ops) s) = [] \<and>
       boxes (redo_times (length ops) (undo_times (length ops) s)) =
         map (\<lambda>b. b\<lparr>color := None\<rparr>) (boxes s) \<and>
       map rect (boxes (redo_times (length ops) (undo_times (length ops) s))) =
         map rect (boxes s) \<and>
       map class_id (boxes (redo_times (length ops) (undo_times (length ops) s))) =
         map class_id (boxes s) \<and>
       map class_name (boxes (redo_times (length ops) (undo_times (length ops) s))) =
         map class_name (boxes s)"
    by (auto simp: copy_boxes_eq)
  from main undo_step [of t] redo_step [of t] undo_empty [of t] redo_empty [of t]
  show ?thesis by blast
qed

theorem undo_redo_symmetry_witness:
  "\<exists>s. run_ops init_scene
          [SelectClass 2 ''fish'' None, Draw \<lparr>xp = 0, yp = 0, wd = 50, ht = 50\<rparr>,
           Edit (Some (0, \<lparr>xp = 5, yp = 5, wd = 60, ht = 60\<rparr>)),
           Draw \<lparr>xp = 7, yp = 7, wd = 20, ht = 20\<rparr>, Delete [1]] = Inr s \<and>
       boxes s = [\<lparr>rect = \<lparr>xp = 5, yp = 5, wd = 60, ht = 60\<rparr>, class_id = 2,
                   class_name = ''fish'', color = Some (QColor 0 0 255 150)\<rparr>] \<and>
       boxes (undo_times 5 s) = [] \<and>
       boxes (redo_times 5 (undo_times 5 s)) =
         [\<lparr>rect = \<lparr>xp = 5, yp = 5, wd = 60, ht = 60\<rparr>, class_id = 2,
           class_name = ''fish'', color = None\<rparr>]"
proof -
  let ?ops = "[SelectClass 2 ''fish'' None, Draw \<lparr>xp = 0, yp = 0, wd = 50, ht = 50\<rparr>,
           Edit (Some (0, \<lparr>xp = 5, yp = 5, wd = 60, ht = 60\<rparr>)),
           Draw \<lparr>xp = 7, yp = 7, wd = 20, ht = 20\<rparr>, Delete [1]]"
  have h: "boxes init_scene = [] \<and> undo_stack init_scene = [] \<and> redo_stack init_scene = []"
    by (simp add: init_scene_def)
  have b: "map_sum id boxes (run_ops init_scene ?ops) =
      Inr [\<lparr>rect = \<lparr>xp = 5, yp = 5, wd = 60, ht = 60\<rparr>, class_id = 2,
            class_name = ''fish'', color = Some (QColor 0 0 255 150)\<rparr>]"
    by code_simp
  have len: "length ?ops = 5" by simp
  from undo_redo_symmetry [OF h, of ?ops] obtain s
    where s: "run_ops init_scene ?ops = Inr s"
      "boxes (undo_times (length ?ops) s) = []"
      "boxes (redo_times (length ?ops) (undo_times (length ?ops) s)) =
         map (\<lambda>b. b\<lparr>color := None\<rparr>) (boxes s)"
    by blast
  from b have "map_sum id boxes (Inr s :: py_error + AnnotationScene) =
      Inr [\<lparr>rect = \<lparr>xp = 5, yp = 5, wd = 60, ht = 60\<rparr>, class_id = 2,
            class_name = ''fish'', color = Some (QColor 0 0 255 150)\<rparr>]"
    by (simp only: s(1))
  then have bs: "boxes s = [\<lparr>rect = \<lparr>xp = 5, yp = 5, wd = 60, ht = 60\<rparr>, class_id = 2,
            class_name = ''fish'', color = Some (QColor 0 0 255 150)\<rparr>]"
    by simp
  from s(2) have u: "boxes (undo_times 5 s) = []"
    by (simp only: len)
  from s(3) have r: "boxes (redo_times 5 (undo_times 5 s)) =
      map (\<lambda>b. b\<lparr>color := None\<rparr>) (boxes s)"
    by (simp only: len)
  from s(1) bs u r show ?thesis
    by (intro exI [of _ s]) simp
qed

section \<open>Properties of the resize handle\<close>







section \<open>Properties of the files written and read\<close>

text \<open>
  Claim C9, evaluated on the registry with the classes 2 ``fish'' and 5 ``crab'', built by
  two calls of \<^verbatim>\<open>add_class\<close>. The Save Classes button writes the lines \<^verbatim>\<open>[0] fish\<close> and
  \<^verbatim>\<open>[1] crab\<close>: the number in brackets is the position in the sorted list, not the class
  id. \<^verbatim>\<open>save_classes\<close>, which runs when the labels directory is set, writes the bare names.
\<close>

theorem class_file_written:
  "class_id_map (add_class (add_class init_window ''fish'' 2 None) ''crab'' 5 None) =
     [(2, ''fish''), (5, ''crab'')] \<and>
   classes (add_class (add_class init_window ''fish'' 2 None) ''crab'' 5 None) =
     [''fish'', ''crab''] \<and>
   snd (save_classes_file (add_class (add_class init_window ''fish'' 2 None) ''crab'' 5 None)
          ''classes.txt'') =
     Some (''[0] fish'' @ [newline] @ ''[1] crab'' @ [newline]) \<and>
   save_classes ((add_class (add_class init_window ''fish'' 2 None) ''crab'' 5 None)
                   \<lparr>class_file_path := Some ''classes.txt''\<rparr>) =
     Some (''fish'' @ [newline] @ ''crab'' @ [newline])"
  by code_simp

text \<open>
  Claim C4, evaluated on a 100 by 100 image. A file whose first line starts with a token
  that is not an integer loads nothing, although its second line is well formed, and the
  warning is shown: the \<^verbatim>\<open>ValueError\<close> of line 1946 leaves the loop. Lines that are empty,
  have another number of tokens than five, or carry a malformed float are skipped, and the
  lines after them are loaded.
\<close>

theorem load_annotations_aborts:
  "load_annotations
     (init_window\<lparr>current_image_path := Some ''img.png'',
                   scene := init_scene\<lparr>image_width := 100, image_height := 100\<rparr>\<rparr>)
     (Some [''abc 0.5 0.5 0.2 0.2'', ''0 0.5 0.5 0.2 0.2'']) =
   Some (init_window\<lparr>current_image_path := Some ''img.png'',
                       scene := init_scene\<lparr>image_width := 100, image_height := 100\<rparr>\<rparr>,
         True) \<and>
   load_annotations
     (init_window\<lparr>current_image_path := Some ''img.png'',
                   scene := init_scene\<lparr>image_width := 100, image_height := 100\<rparr>\<rparr>)
     (Some [''0 0.5 junk 0.2 0.2'', ''0 0.5 0.5'', [], ''0 0.5 0.5 0.2 0.2'']) =
   Some (init_window\<lparr>current_image_path := Some ''img.png'',
                       scene := init_scene\<lparr>image_width := 100, image_height := 100,
                         boxes := [\<lparr>rect = \<lparr>xp = 40, yp = 40, wd = 20, ht = 20\<rparr>,
                                    class_id = 0, class_name = ''class_0'',
                                    color = None\<rparr>]\<rparr>\<rparr>,
         False)"
  by code_simp

section \<open>Properties of the codec\<close>

subsection \<open>Digits, tokens and rounding\<close>

lemma digit_range: "0 \<le> d \<Longrightarrow> d < 10 \<Longrightarrow>
  d = 0 \<or> d = 1 \<or> d = 2 \<or> d = 3 \<or> d = 4 \<or> d = 5 \<or> d = 6 \<or> d = 7 \<or> d = 8 \<or> (d::int) = 9"
  by arith

lemma digit_char_props:
  assumes "0 \<le> d" "d < 10"
  shows "is_digit (digit_char d)" "digit_val (digit_char d) = d" "\<not> is_space (digit_char d)"
    "digit_char d \<noteq> CHR ''.''" "\<not> is_exp_char (digit_char d)"
    "digit_char d \<noteq> CHR ''-''" "digit_char d \<noteq> CHR ''+''"
  using digit_range [OF assms]
  by (auto simp: digit_char_def is_digit_def digit_val_def is_space_def is_exp_char_def)

lemma digitpart_aux_digits:
  "\<forall>c \<in> set s. is_digit c \<Longrightarrow> digitpart_aux acc s = Some (digits_value acc s)"
  by (induction acc s rule: digitpart_aux.induct) (auto simp: digits_value_def)

lemma digitpart_digits:
  "s \<noteq> [] \<Longrightarrow> \<forall>c \<in> set s. is_digit c \<Longrightarrow> digitpart s = Some (digits_value 0 s)"
  by (cases s) (auto simp: digitpart_def digitpart_aux_digits digits_value_def)

lemma digits10_props:
  "0 \<le> n \<Longrightarrow> digits10 n \<noteq> [] \<and> (\<forall>c \<in> set (digits10 n). is_digit c) \<and>
     digits_value 0 (digits10 n) = n"
proof (induction n rule: digits10.induct)
  case (1 n)
  show ?case
  proof (cases "n < 10")
    case True
    with 1 show ?thesis
      by (simp add: digits10.simps [of n] digit_char_props digits_value_def)
  next
    case False
    then have "0 \<le> n div 10" "0 \<le> n mod 10" "n mod 10 < 10" by simp_all
    with 1 False show ?thesis
      by (simp add: digits10.simps [of n] digit_char_props digits_value_def)
  qed
qed

lemma digits6_props:
  "(\<forall>c \<in> set (digits6 n). is_digit c) \<and> length (digits6 n) = 6 \<and> digits6 n \<noteq> []"
  by (simp add: digits6_def digit_char_props)

lemma div_step: "(n::int) div k = 10 * (n div (k * 10)) + n div k mod 10"
proof -
  have "n div (k * 10) = (n div k) div 10"
    by (rule zdiv_zmult2_eq) simp
  then show ?thesis by simp
qed

lemma six_digits_sum:
  assumes "0 \<le> n" "n < 1000000"
  shows "10 * (10 * (10 * (10 * (10 * (n div 100000 mod 10) + n div 10000 mod 10) +
           n div 1000 mod 10) + n div 100 mod 10) + n div 10 mod 10) + n mod 10 = (n::int)"
proof -
  have top: "n div 100000 mod 10 = n div 100000"
    using assms by simp
  have s4: "10 * (n div 100000) + n div 10000 mod 10 = n div 10000"
    using div_step [of n 10000] by simp
  have s3: "10 * (n div 10000) + n div 1000 mod 10 = n div 1000"
    using div_step [of n 1000] by simp
  have s2: "10 * (n div 1000) + n div 100 mod 10 = n div 100"
    using div_step [of n 100] by simp
  have s1: "10 * (n div 100) + n div 10 mod 10 = n div 10"
    using div_step [of n 10] by simp
  have s0: "10 * (n div 10) + n mod 10 = n"
    by simp
  show ?thesis
    by (simp only: top s4 s3 s2 s1 s0)
qed

lemma digits6_value:
  assumes "0 \<le> n" "n < 1000000"
  shows "digits_value 0 (digits6 n) = n"
proof -
  have "digits_value 0 (digits6 n) =
      10 * (10 * (10 * (10 * (10 * (n div 100000 mod 10) + n div 10000 mod 10) +
           n div 1000 mod 10) + n div 100 mod 10) + n div 10 mod 10) + n mod 10"
    by (simp add: digits6_def digits_value_def digit_char_props)
  also have "\<dots> = n" using assms by (rule six_digits_sum)
  finally show ?thesis .
qed

lemma split_aux_token:
  "\<forall>c \<in> set t. \<not> is_space c \<Longrightarrow> split_aux cur (t @ rest) = split_aux (cur @ t) rest"
  by (induction t arbitrary: cur) simp_all

lemma is_space_blank: "is_space (CHR '' '')"
  by (simp add: is_space_def)

lemma split_aux_sep:
  "is_token t \<Longrightarrow> split_aux [] (t @ CHR '' '' # rest) = t # split_aux [] rest"
  using split_aux_token [of t "[]" "CHR '' '' # rest"] by (simp add: is_space_blank is_token_def)

lemma split_aux_last:
  "is_token t \<Longrightarrow> split_aux [] t = [t]"
  using split_aux_token [of t "[]" "[]"] by (simp add: is_token_def)

lemma py_strip_id:
  "s \<noteq> [] \<Longrightarrow> \<not> is_space (hd s) \<Longrightarrow> \<not> is_space (last s) \<Longrightarrow> py_strip s = s"
proof -
  assume s: "s \<noteq> []" and h: "\<not> is_space (hd s)" and l: "\<not> is_space (last s)"
  from s h have a: "dropWhile is_space s = s" by (cases s) simp_all
  from s l have "dropWhile is_space (rev s) = rev s"
    by (cases "rev s") (simp_all add: last_rev hd_rev [symmetric])
  with a show ?thesis by (simp add: py_strip_def)
qed

lemma split_five:
  assumes "is_token t0" "is_token t1" "is_token t2" "is_token t3" "is_token t4"
  shows "py_split (py_strip (t0 @ '' '' @ t1 @ '' '' @ t2 @ '' '' @ t3 @ '' '' @ t4)) =
    [t0, t1, t2, t3, t4]"
proof -
  let ?s = "t0 @ '' '' @ t1 @ '' '' @ t2 @ '' '' @ t3 @ '' '' @ t4"
  have ne: "t0 \<noteq> []" "t4 \<noteq> []" using assms by (simp_all add: is_token_def)
  have "hd ?s = hd t0" "last ?s = last t4" using ne by simp_all
  moreover have "\<not> is_space (hd t0)" "\<not> is_space (last t4)"
    using assms ne by (simp_all add: is_token_def)
  ultimately have "py_strip ?s = ?s"
    using ne by (intro py_strip_id) simp_all
  moreover have "split_aux [] ?s = [t0, t1, t2, t3, t4]"
    using assms by (simp add: split_aux_sep split_aux_last)
  ultimately show ?thesis by (simp add: py_split_def)
qed

lemma split_aux_tokens:
  "\<forall>c \<in> set cur. \<not> is_space c \<Longrightarrow>
   (\<forall>t \<in> set (split_aux cur s). is_token t) \<and>
   concat (split_aux cur s) = cur @ filter (\<lambda>c. \<not> is_space c) s"
proof (induction s arbitrary: cur)
  case Nil
  then show ?case by (simp add: is_token_def)
next
  case (Cons c s)
  show ?case
  proof (cases "is_space c")
    case True
    from Cons.IH [of "[]"] have ih: "(\<forall>t \<in> set (split_aux [] s). is_token t)"
      "concat (split_aux [] s) = filter (\<lambda>c. \<not> is_space c) s" by simp_all
    show ?thesis
    proof (cases "cur = []")
      case True
      with \<open>is_space c\<close> ih show ?thesis by simp
    next
      case False
      with \<open>is_space c\<close> ih Cons.prems show ?thesis by (simp add: is_token_def)
    qed
  next
    case False
    with Cons.prems have "\<forall>x \<in> set (cur @ [c]). \<not> is_space x" by simp
    from Cons.IH [OF this] False show ?thesis by simp
  qed
qed

lemma py_split_tokens:
  "(\<forall>t \<in> set (py_split s). is_token t) \<and>
   concat (py_split s) = filter (\<lambda>c. \<not> is_space c) s"
  using split_aux_tokens [of "[]" s] by (simp add: py_split_def)

lemma round_half_even_close: "\<bar>of_int (round_half_even q) - q\<bar> \<le> 1 / 2"
proof -
  define f where "f = \<lfloor>q\<rfloor>"
  have "of_int f \<le> q" "q < of_int f + 1" unfolding f_def by linarith+
  then have "\<bar>of_int (let r = q - of_int f
      in if r < 1 / 2 then f else if 1 / 2 < r then f + 1 else if even f then f else f + 1) - q\<bar>
      \<le> 1 / 2"
    by (auto simp: Let_def abs_if)
  then show ?thesis unfolding round_half_even_def f_def Let_def .
qed

lemma round_half_even_mono_int:
  "of_int k \<le> q \<Longrightarrow> k \<le> round_half_even q" "q \<le> of_int k \<Longrightarrow> round_half_even q \<le> k"
proof -
  assume "of_int k \<le> q"
  then have "k \<le> \<lfloor>q\<rfloor>" by (simp add: le_floor_iff)
  then show "k \<le> round_half_even q" by (auto simp: round_half_even_def Let_def)
next
  assume a: "q \<le> of_int k"
  show "round_half_even q \<le> k"
  proof (cases "q = of_int k")
    case True
    then show ?thesis by (simp add: round_half_even_def Let_def)
  next
    case False
    with a have "q < of_int k" by simp
    then have "\<lfloor>q\<rfloor> < k" by (simp add: floor_less_iff)
    then show ?thesis by (auto simp: round_half_even_def Let_def)
  qed
qed

lemma is_digit_not_special:
  "is_digit c \<Longrightarrow>
   c \<noteq> CHR ''-'' \<and> c \<noteq> CHR ''+'' \<and> c \<noteq> CHR ''.'' \<and> \<not> is_exp_char c \<and> \<not> is_space c"
  by (auto simp: is_digit_def is_exp_char_def is_space_def Let_def)

lemma point_not_special: "\<not> is_exp_char (CHR ''.'') \<and> \<not> is_space (CHR ''.'')"
  by (simp add: is_exp_char_def is_space_def)

lemma py_float_number_decimal:
  assumes ip: "ip \<noteq> []" "\<forall>c \<in> set ip. is_digit c"
    and fp: "fp \<noteq> []" "\<forall>c \<in> set fp. is_digit c"
  shows "py_float_number (ip @ CHR ''.'' # fp) =
    Some (of_int (digits_value 0 ip) + of_int (digits_value 0 fp) / 10 ^ length fp)"
proof -
  have np: "\<forall>c \<in> set ip. c \<noteq> CHR ''.''"
    using ip(2) is_digit_not_special by blast
  have t: "takeWhile (\<lambda>c. c \<noteq> CHR ''.'') (ip @ CHR ''.'' # fp) = ip"
    using np by (simp add: takeWhile_tail)
  have d: "dropWhile (\<lambda>c. c \<noteq> CHR ''.'') (ip @ CHR ''.'' # fp) = CHR ''.'' # fp"
    using np by (simp add: dropWhile_append3)
  have f: "filter is_digit fp = fp" using fp(2) by simp
  show ?thesis
    by (simp add: py_float_number_def Let_def t d f fp(1) ip(1)
        digitpart_digits [OF ip] digitpart_digits [OF fp])
qed

lemma py_float_abs_decimal:
  assumes ip: "ip \<noteq> []" "\<forall>c \<in> set ip. is_digit c"
    and fp: "fp \<noteq> []" "\<forall>c \<in> set fp. is_digit c"
  shows "py_float_abs (ip @ CHR ''.'' # fp) =
    Some (of_int (digits_value 0 ip) + of_int (digits_value 0 fp) / 10 ^ length fp)"
proof -
  let ?s = "ip @ CHR ''.'' # fp"
  have all: "\<forall>c \<in> set ?s. \<not> is_exp_char c"
    using ip(2) fp(2) is_digit_not_special point_not_special by auto
  then have t: "takeWhile (\<lambda>c. \<not> is_exp_char c) ?s = ?s"
    by (simp only: takeWhile_eq_all_conv)
  from all have d: "dropWhile (\<lambda>c. \<not> is_exp_char c) ?s = []"
    by (simp only: dropWhile_eq_Nil_conv)
  show ?thesis
    unfolding py_float_abs_def Let_def t d
    by (simp add: py_float_number_decimal [OF ip fp])
qed

lemma fixed6_nonneg:
  "0 \<le> v \<Longrightarrow>
   fixed6 v = digits10 (round_half_even (v * 1000000) div 1000000) @
                 CHR ''.'' # digits6 (round_half_even (v * 1000000) mod 1000000)"
  by (simp add: fixed6_def Let_def)

lemma py_float_abs_fixed6:
  assumes "0 \<le> v"
  shows "py_float_abs (fixed6 v) = Some (of_int (round_half_even (v * 1000000)) / 1000000)"
proof -
  let ?n = "round_half_even (v * 1000000)"
  have n: "0 \<le> ?n" using assms by (intro round_half_even_mono_int(1)) simp
  then have a: "0 \<le> ?n div 1000000" by simp
  have b: "0 \<le> ?n mod 1000000" "?n mod 1000000 < 1000000" by simp_all
  note ip = digits10_props [OF a]
  note fp = digits6_props [of "?n mod 1000000"]
  have "py_float_abs (digits10 (?n div 1000000) @ CHR ''.'' # digits6 (?n mod 1000000)) =
      Some (of_int (digits_value 0 (digits10 (?n div 1000000))) +
            of_int (digits_value 0 (digits6 (?n mod 1000000))) /
              10 ^ length (digits6 (?n mod 1000000)))"
    using ip fp by (intro py_float_abs_decimal) simp_all
  also have "\<dots> = Some (of_int (?n div 1000000) + of_int (?n mod 1000000) / 1000000)"
    using ip fp by (simp add: digits6_value [OF b])
  also have "of_int (?n div 1000000) + of_int (?n mod 1000000) / (1000000 :: rat) =
      of_int ?n / 1000000"
  proof -
    define q r where "q = ?n div 1000000" and "r = ?n mod 1000000"
    have "?n = 1000000 * q + r" by (simp add: q_def r_def)
    then have "(of_int ?n :: rat) = 1000000 * of_int q + of_int r" by simp
    then have "of_int q + of_int r / (1000000 :: rat) = of_int ?n / 1000000" by simp
    then show ?thesis by (simp only: q_def r_def)
  qed
  finally show ?thesis by (simp add: fixed6_nonneg [OF assms])
qed

lemma py_int_py_str_int: "py_int (py_str_int i) = Some i"
proof (cases "i < 0")
  case True
  then have p: "0 \<le> - i" by simp
  note d = digits10_props [OF p]
  then have "digitpart (digits10 (- i)) = Some (- i)"
    by (simp add: digitpart_digits)
  with True show ?thesis by (simp add: py_int_def py_str_int_def)
next
  case False
  then have p: "0 \<le> i" by simp
  note d = digits10_props [OF p]
  then have dp: "digitpart (digits10 i) = Some i"
    by (simp add: digitpart_digits)
  from d obtain c cs where c: "digits10 i = c # cs" "is_digit c"
    by (cases "digits10 i") auto
  then have "c \<noteq> CHR ''-''" "c \<noteq> CHR ''+''" using is_digit_not_special by blast+
  with False dp c show ?thesis by (simp add: py_int_def py_str_int_def)
qed

lemma is_token_digits10: "0 \<le> n \<Longrightarrow> is_token (digits10 n)"
  using digits10_props [of n] is_digit_not_special by (auto simp: is_token_def)

lemma is_token_py_str_int: "is_token (py_str_int i)"
proof (cases "i < 0")
  case True
  then have "is_token (digits10 (- i))" by (intro is_token_digits10) simp
  moreover have "\<not> is_space (CHR ''-'')" by (simp add: is_space_def)
  ultimately show ?thesis using True by (simp add: py_str_int_def is_token_def)
next
  case False
  then have "is_token (digits10 i)" by (intro is_token_digits10) simp
  with False show ?thesis by (simp add: py_str_int_def)
qed

lemma is_token_fixed6: "0 \<le> v \<Longrightarrow> is_token (fixed6 v)"
proof -
  assume v: "0 \<le> v"
  let ?n = "round_half_even (v * 1000000)"
  have "0 \<le> ?n" using v by (intro round_half_even_mono_int(1)) simp
  then have "0 \<le> ?n div 1000000" by simp
  from digits10_props [OF this] digits6_props [of "?n mod 1000000"]
  show ?thesis
    using is_digit_not_special point_not_special
    by (auto simp: fixed6_nonneg [OF v] is_token_def)
qed

lemma clamp01_range: "0 \<le> clamp01 v \<and> clamp01 v \<le> 1"
  by (simp add: clamp01_def)

lemma clamp01_id: "0 \<le> v \<Longrightarrow> v \<le> 1 \<Longrightarrow> clamp01 v = v"
  by (simp add: clamp01_def)

lemma digits10_single: "0 \<le> a \<Longrightarrow> a < 10 \<Longrightarrow> digits10 a = [digit_char a]"
  by (simp add: digits10.simps [of a])

lemma fixed6_unit:
  assumes "0 \<le> u" "u \<le> 1"
  shows "length (fixed6 u) = 8" "fixed6 u ! 1 = CHR ''.''"
    "\<bar>of_int (round_half_even (u * 1000000)) / 1000000 - u\<bar> \<le> 1 / 2000000"
proof -
  let ?n = "round_half_even (u * 1000000)"
  have n0: "0 \<le> ?n" using assms by (intro round_half_even_mono_int(1)) simp
  have n1: "?n \<le> 1000000" using assms by (intro round_half_even_mono_int(2)) simp
  from n0 n1 have a: "0 \<le> ?n div 1000000" "?n div 1000000 < 10" by simp_all
  have f: "fixed6 u = digit_char (?n div 1000000) # CHR ''.'' # digits6 (?n mod 1000000)"
    by (simp add: fixed6_nonneg [OF assms(1)] digits10_single [OF a])
  show "length (fixed6 u) = 8" by (simp add: f digits6_props)
  show "fixed6 u ! 1 = CHR ''.''" by (simp add: f)
  have "\<bar>of_int ?n - u * 1000000\<bar> \<le> 1 / 2" by (rule round_half_even_close)
  then have "\<bar>(of_int ?n - u * 1000000) / 1000000\<bar> \<le> (1 / 2) / 1000000"
    by (simp only: abs_divide) (simp add: divide_le_cancel)
  then show "\<bar>of_int ?n / 1000000 - u\<bar> \<le> 1 / 2000000"
    by (simp add: diff_divide_distrib)
qed

lemma filter_dropWhile_space:
  "filter (\<lambda>c. \<not> is_space c) (dropWhile is_space xs) = filter (\<lambda>c. \<not> is_space c) xs"
  by (induction xs) simp_all

lemma filter_py_strip: "filter (\<lambda>c. \<not> is_space c) (py_strip s) = filter (\<lambda>c. \<not> is_space c) s"
proof -
  have "filter (\<lambda>c. \<not> is_space c) (py_strip s) =
      rev (filter (\<lambda>c. \<not> is_space c) (dropWhile is_space (rev (dropWhile is_space s))))"
    by (simp add: py_strip_def rev_filter)
  also have "\<dots> = rev (filter (\<lambda>c. \<not> is_space c) (rev (dropWhile is_space s)))"
    by (simp only: filter_dropWhile_space)
  also have "\<dots> = filter (\<lambda>c. \<not> is_space c) (dropWhile is_space s)"
    by (simp add: rev_filter [symmetric])
  also have "\<dots> = filter (\<lambda>c. \<not> is_space c) s"
    by (rule filter_dropWhile_space)
  finally show ?thesis .
qed

end
